theory Spec2Isabelle
  imports Complex_Main
begin

section \<open>Quantity reconciliation of contractor bills (routes/bills.js)\<close>

text \<open>
  A shallow embedding of the two handlers of \<^verbatim>\<open>backend/routes/bills.js\<close> that keep a bill,
  the per-job record of remaining work (JobopsMaster) and the per-contractor record of
  completed work (Contractor_WD) in step: \<^verbatim>\<open>PUT /:billNumber/edit-qty\<close> and
  \<^verbatim>\<open>DELETE /:billNumber\<close>.

  Conventions of the embedding.
  \<^item> JavaScript numbers are modelled as \<^typ>\<open>real\<close>: arithmetic is exact, so the rounding
    of IEEE doubles is idealised away. A value that \<^verbatim>\<open>Number(.)\<close> turns into \<^verbatim>\<open>NaN\<close> or an
    infinity is the separate constructor \<open>NotFinite\<close>.
  \<^item> \<^verbatim>\<open>new Date()\<close> is a parameter \<open>now\<close> of the handlers.
  \<^item> The MongoDB collections are maps from the key the handlers query by to the document.
    The statements of a transaction are staged on a copy of the store; aborting returns
    the store the handler was called with.
  \<^item> Array elements that the source holds by reference (\<^verbatim>\<open>Array.prototype.find\<close>) are
    held by their index.
\<close>

subsection \<open>Documents\<close>

record bill_op =
  opsName :: string
  qtyBook :: real
  rate :: real
  qtyCompleted :: real
  totalValue :: real

record bill_job =
  jobNumber :: string
  clientName :: string
  jobTitle :: string
  ops :: "bill_op list"

record bill =
  billNumber :: string
  contractorName :: string
  paymentStatus :: string
  isDeleted :: bool
  jobs :: "bill_job list"

text \<open>JobopsMaster: one document per job; its \<^verbatim>\<open>ops\<close> array is \<open>master_ops\<close>.\<close>

record job_op =
  opId :: string
  valuePerBook :: real
  totalOpsQty :: real
  pendingOpsQty :: real
  lastUpdatedDate :: nat

record jobops_master =
  jobId :: string
  master_ops :: "job_op list"

text \<open>Contractor_WD: one document per contractor and job. \<open>opsId = None\<close> is \<^verbatim>\<open>null\<close>.\<close>

record wd_op =
  opsId :: "string option"
  wd_opsName :: string
  wd_valuePerBook :: real
  opsDoneQty :: real
  completionDate :: nat

record contractor_wd =
  contractorId :: string
  wd_jobId :: string
  opsDone :: "wd_op list"

text \<open>
  The Operation catalog, in the order \<^verbatim>\<open>find\<close> and \<^verbatim>\<open>findOne\<close> scan it. \<open>op_id\<close> is
  \<^verbatim>\<open>_id.toString()\<close>, the 24 hexadecimal digits of the ObjectId.
\<close>

record operation =
  op_id :: string
  op_opsName :: string

record store =
  bills :: "string \<rightharpoonup> bill"
  masters :: "string \<rightharpoonup> jobops_master"
  ledgers :: "string \<times> string \<rightharpoonup> contractor_wd"
  operations :: "operation list"
  contractors :: "string \<rightharpoonup> string"

subsection \<open>The request body of edit-qty\<close>

datatype jsnum = Finite real | NotFinite

text \<open>
  One element of \<^verbatim>\<open>changes\<close>. A field is \<open>None\<close> when it is absent, \<^verbatim>\<open>undefined\<close> or
  \<^verbatim>\<open>null\<close>. \<open>ch_jobNumber\<close> and \<open>ch_opsName\<close> hold JSON strings; \<open>ch_rate\<close> and
  \<open>newQtyCompleted\<close> hold what \<^verbatim>\<open>Number(.)\<close> makes of the supplied value. Fields of other
  JSON types are outside the model.
\<close>

record change =
  ch_jobNumber :: "string option"
  ch_opsName :: "string option"
  ch_rate :: "jsnum option"
  newQtyCompleted :: "jsnum option"

datatype error =
    ContractorIdRequired
  | ChangesRequired
  | BillNotFound
  | BillAlreadyPaid
  | ChangeWithoutJobNumber
  | ChangeWithoutOpsName
  | ChangeWithoutNewQty
  | OperationNotFound
  | InvalidQuantity
  | JobMasterNotFound
  | OperationNotFoundInMaster
  | InsufficientPendingQuantity
  | ContractorNotFound

datatype response = BillJson bill | Deleted | Rejected error

subsection \<open>Strings and numbers of the JavaScript runtime\<close>

text \<open>\<^verbatim>\<open>String.prototype.trim\<close>, on the ASCII white space and line terminators.\<close>

definition is_space :: "char \<Rightarrow> bool" where
  "is_space c = (c \<in> set [CHR '' '', CHR 0x09, CHR 0x0A, CHR 0x0B, CHR 0x0C, CHR 0x0D])"

definition trim :: "string \<Rightarrow> string" where
  "trim s = rev (dropWhile is_space (rev (dropWhile is_space s)))"

text \<open>The decimal digits of a natural number.\<close>

fun digits :: "nat \<Rightarrow> string" where
  "digits n =
     (if n < 10 then [''0123456789'' ! n]
      else digits (n div 10) @ [''0123456789'' ! (n mod 10)])"

declare digits.simps [simp del]

text \<open>
  \<^verbatim>\<open>x.toFixed(f)\<close>: the sign is taken off first, then the integer \<open>n\<close> with \<open>n / 10^f\<close>
  nearest to \<open>|x|\<close> is chosen, the larger one on a tie (\<open>scaled\<close>). The \<open>f\<close> digits after the
  point are the digits of \<open>10^f + n mod 10^f\<close> without the leading one, which keeps the zeros
  in front. The exponent form that \<^verbatim>\<open>toFixed\<close> prints from \<open>10^21\<close> on is not modelled.
\<close>

definition scaled :: "nat \<Rightarrow> real \<Rightarrow> nat" where
  "scaled f x = nat \<lfloor>\<bar>x\<bar> * 10 ^ f + 1 / 2\<rfloor>"

definition toFixed :: "nat \<Rightarrow> real \<Rightarrow> string" where
  "toFixed f x =
     (let n = scaled f x
      in (if x < 0 then ''-'' else '''') @ digits (n div 10 ^ f) @
         (if f = 0 then '''' else ''.'' @ tl (digits (10 ^ f + n mod 10 ^ f))))"

text \<open>\<^verbatim>\<open>const round2 = (val) => parseFloat(Number(val || 0).toFixed(2))\<close>\<close>

definition round2 :: "real \<Rightarrow> real" where
  "round2 val = (if val < 0 then - (real (scaled 2 val) / 100) else real (scaled 2 val) / 100)"

text \<open>\<^verbatim>\<open>Number(rate || 0)\<close> on a field of a change.\<close>

definition number_or_zero :: "jsnum option \<Rightarrow> jsnum" where
  "number_or_zero v = (case v of None \<Rightarrow> Finite 0 | Some n \<Rightarrow> n)"

text \<open>\<^verbatim>\<open>buildKey(jobNumber, opsName, rate)\<close>, the key of \<^verbatim>\<open>billOpsMap\<close>.\<close>

definition buildKey :: "string \<Rightarrow> string \<Rightarrow> jsnum \<Rightarrow> string" where
  "buildKey jn nm r =
     trim jn @ ''|'' @ trim nm @ ''|'' @
     (case r of Finite x \<Rightarrow> toFixed 4 x | NotFinite \<Rightarrow> ''0.0000'')"

text \<open>\<^verbatim>\<open>Array.prototype.find\<close>, returning the position of the element found.\<close>

fun findIndex :: "('a \<Rightarrow> bool) \<Rightarrow> 'a list \<Rightarrow> nat option" where
  "findIndex P [] = None"
| "findIndex P (x # xs) = (if P x then Some 0 else map_option Suc (findIndex P xs))"

subsection \<open>edit-qty: the changes applied to the bill in memory\<close>

text \<open>
  \<^verbatim>\<open>billOpsMap\<close>: every line of the bill under its key, a later line replacing an earlier
  one with the same key (\<^verbatim>\<open>Map.set\<close>). A line is the pair of its job's and its own position.
\<close>

definition bill_entries :: "bill_job list \<Rightarrow> (string \<times> nat \<times> nat) list" where
  "bill_entries js =
     concat (map (\<lambda>(j, job).
        map (\<lambda>(i, bop). (buildKey (jobNumber job) (opsName bop) (Finite (rate bop)), (j, i)))
            (enumerate 0 (ops job)))
       (enumerate 0 js))"

definition billOpsMap :: "bill_job list \<Rightarrow> (string \<rightharpoonup> nat \<times> nat)" where
  "billOpsMap js = map_of (rev (bill_entries js))"

record delta =
  d_opsName :: string
  d_rate :: real
  deltaQty :: real

text \<open>
  \<^verbatim>\<open>deltasByJob\<close>: a \<^verbatim>\<open>Map\<close> from job number to the deltas of that job, iterated in the
  order in which the job numbers were first set.
\<close>

fun push_delta :: "string \<Rightarrow> delta \<Rightarrow> (string \<times> delta list) list \<Rightarrow> (string \<times> delta list) list" where
  "push_delta jn d [] = [(jn, [d])]"
| "push_delta jn d ((k, ds) # rest) =
     (if k = jn then (k, ds @ [d]) # rest else (k, ds) # push_delta jn d rest)"

text \<open>The body of \<^verbatim>\<open>for (const change of changes)\<close>.\<close>

definition apply_change ::
  "(string \<rightharpoonup> nat \<times> nat) \<Rightarrow> change \<Rightarrow> bill_job list \<times> (string \<times> delta list) list
     \<Rightarrow> error + bill_job list \<times> (string \<times> delta list) list" where
  "apply_change bmap c st =
     (case st of (js, dbj) \<Rightarrow>
      case ch_jobNumber c of None \<Rightarrow> Inl ChangeWithoutJobNumber | Some jn \<Rightarrow>
      if trim jn = [] then Inl ChangeWithoutJobNumber else
      case ch_opsName c of None \<Rightarrow> Inl ChangeWithoutOpsName | Some nm \<Rightarrow>
      if trim nm = [] then Inl ChangeWithoutOpsName else
      case newQtyCompleted c of None \<Rightarrow> Inl ChangeWithoutNewQty | Some nq \<Rightarrow>
      case bmap (buildKey jn nm (number_or_zero (ch_rate c))) of
        None \<Rightarrow> Inl OperationNotFound
      | Some (j, i) \<Rightarrow>
          let job = js ! j; bop = ops job ! i; oldQty = qtyCompleted bop in
          case nq of NotFinite \<Rightarrow> Inl InvalidQuantity | Finite newQty \<Rightarrow>
          if newQty < 0 then Inl InvalidQuantity else
          let dl = newQty - oldQty in
          if dl = 0 then Inr (js, dbj)
          else Inr (js[j := job\<lparr>ops := (ops job)[i := bop\<lparr>qtyCompleted := newQty,
                                                        totalValue := rate bop * newQty\<rparr>]\<rparr>],
                    push_delta (jobNumber job)
                      \<lparr>d_opsName = trim (opsName bop), d_rate = rate bop, deltaQty = dl\<rparr> dbj))"

fun apply_changes ::
  "(string \<rightharpoonup> nat \<times> nat) \<Rightarrow> change list \<Rightarrow> bill_job list \<times> (string \<times> delta list) list
     \<Rightarrow> error + bill_job list \<times> (string \<times> delta list) list" where
  "apply_changes bmap [] st = Inr st"
| "apply_changes bmap (c # cs) st =
     (case apply_change bmap c st of Inl e \<Rightarrow> Inl e | Inr st' \<Rightarrow> apply_changes bmap cs st')"

subsection \<open>edit-qty: JobopsMaster\<close>

text \<open>
  \<^verbatim>\<open>operationNameMap\<close>: the names of the catalog's operations whose id is among the
  (truthy) \<^verbatim>\<open>opId\<close>s of the job's master, and the name a master operation gets from it.
\<close>

definition operationNameMap :: "operation list \<Rightarrow> job_op list \<Rightarrow> (string \<rightharpoonup> string)" where
  "operationNameMap cat jops =
     map_of (rev (map (\<lambda>x. (op_id x, op_opsName x))
       (filter (\<lambda>x. op_id x \<in> set (filter (\<lambda>i. i \<noteq> []) (map opId jops))) cat)))"

definition jopName :: "(string \<rightharpoonup> string) \<Rightarrow> job_op \<Rightarrow> string" where
  "jopName nmap jop =
     (case nmap (opId jop) of None \<Rightarrow> ''Unknown''
      | Some n \<Rightarrow> if n = [] then ''Unknown'' else n)"

record adjustment =
  a_opsName :: string
  a_valuePerBook :: real
  a_deltaQty :: real

text \<open>
  \<^verbatim>\<open>jobOpsMaster.ops.find(jop => jopName === normalizedName && jopValue === normalizedRate)\<close>:
  the master's operation for a delta, by name and by the rate rounded to two decimals.
\<close>

definition find_job_op :: "(string \<rightharpoonup> string) \<Rightarrow> job_op list \<Rightarrow> delta \<Rightarrow> nat option" where
  "find_job_op nmap jops d =
     (let normalizedName = trim (d_opsName d); normalizedRate = round2 (d_rate d)
      in findIndex (\<lambda>jop. jopName nmap jop = normalizedName
                          \<and> round2 (valuePerBook jop) = normalizedRate) jops)"

text \<open>The body of \<^verbatim>\<open>for (const { opsName, rate, deltaQty } of deltas)\<close>.\<close>

definition apply_delta ::
  "nat \<Rightarrow> (string \<rightharpoonup> string) \<Rightarrow> delta \<Rightarrow> job_op list \<times> adjustment list
     \<Rightarrow> error + job_op list \<times> adjustment list" where
  "apply_delta now nmap d st =
     (case st of (jops, adjs) \<Rightarrow>
      case find_job_op nmap jops d of
        None \<Rightarrow> Inl OperationNotFoundInMaster
      | Some k \<Rightarrow>
          let jobOp = jops ! k;
              currentPending = pendingOpsQty jobOp;
              newPending = currentPending - deltaQty d
          in if newPending < 0 - 1 / 1000000 then Inl InsufficientPendingQuantity
             else Inr (jops[k := jobOp\<lparr>pendingOpsQty := max 0 (min (totalOpsQty jobOp) newPending),
                                       lastUpdatedDate := now\<rparr>],
                       adjs @ [\<lparr>a_opsName = trim (d_opsName d),
                                a_valuePerBook = valuePerBook jobOp,
                                a_deltaQty = deltaQty d\<rparr>]))"

fun apply_deltas ::
  "nat \<Rightarrow> (string \<rightharpoonup> string) \<Rightarrow> delta list \<Rightarrow> job_op list \<times> adjustment list
     \<Rightarrow> error + job_op list \<times> adjustment list" where
  "apply_deltas now nmap [] st = Inr st"
| "apply_deltas now nmap (d # ds) st =
     (case apply_delta now nmap d st of Inl e \<Rightarrow> Inl e | Inr st' \<Rightarrow> apply_deltas now nmap ds st')"

subsection \<open>edit-qty: Contractor_WD\<close>

text \<open>The body of \<^verbatim>\<open>for (const adj of contractorWDAdjustments)\<close>.\<close>

definition apply_adjustment :: "nat \<Rightarrow> wd_op list \<Rightarrow> adjustment \<Rightarrow> wd_op list" where
  "apply_adjustment now ods adj =
     (let adjName = trim (a_opsName adj); adjValue = round2 (a_valuePerBook adj);
          dq = a_deltaQty adj;
          existingOp = findIndex (\<lambda>od. trim (wd_opsName od) = adjName
                                       \<and> round2 (wd_valuePerBook od) = adjValue) ods
      in if dq > 0 then
           (case existingOp of
              Some k \<Rightarrow> ods[k := (ods ! k)\<lparr>opsDoneQty := opsDoneQty (ods ! k) + dq,
                                          completionDate := now\<rparr>]
            | None \<Rightarrow> ods @ [\<lparr>opsId = None, wd_opsName = adjName, wd_valuePerBook = adjValue,
                              opsDoneQty = dq, completionDate = now\<rparr>])
         else if dq < 0 then
           (case existingOp of
              Some k \<Rightarrow>
                let newDone = opsDoneQty (ods ! k) + dq in
                if newDone \<le> 0 then take k ods @ drop (Suc k) ods
                else ods[k := (ods ! k)\<lparr>opsDoneQty := newDone, completionDate := now\<rparr>]
            | None \<Rightarrow> ods)
         else ods)"

text \<open>
  One turn of \<^verbatim>\<open>for (const [jobNumber, deltas] of deltasByJob.entries())\<close>: the master is
  adjusted and saved, then the contractor's document for the job is loaded or made, adjusted,
  and saved, or deleted (not saved, when it was new) if no entry is left.
\<close>

definition process_job :: "nat \<Rightarrow> string \<Rightarrow> store \<Rightarrow> string \<times> delta list \<Rightarrow> error + store" where
  "process_job now cid s jd =
     (case jd of (jn, deltas) \<Rightarrow>
      case masters s jn of None \<Rightarrow> Inl JobMasterNotFound | Some jobOpsMaster \<Rightarrow>
      case apply_deltas now (operationNameMap (operations s) (master_ops jobOpsMaster)) deltas
             (master_ops jobOpsMaster, []) of
        Inl e \<Rightarrow> Inl e
      | Inr (jops, adjs) \<Rightarrow>
          let s1 = s\<lparr>masters := (masters s)(jn \<mapsto> jobOpsMaster\<lparr>master_ops := jops\<rparr>)\<rparr>;
              found = ledgers s1 (cid, jn);
              contractorWD = (case found of
                  None \<Rightarrow> \<lparr>contractorId = cid, wd_jobId = jn, opsDone = []\<rparr>
                | Some wd \<Rightarrow> wd);
              ods = foldl (apply_adjustment now) (opsDone contractorWD) adjs
          in if ods = [] then
               (case found of
                  None \<Rightarrow> Inr s1
                | Some wd \<Rightarrow> Inr (s1\<lparr>ledgers := (ledgers s1)((cid, jn) := None)\<rparr>))
             else Inr (s1\<lparr>ledgers := (ledgers s1)((cid, jn) \<mapsto> contractorWD\<lparr>opsDone := ods\<rparr>)\<rparr>))"

fun process_jobs :: "nat \<Rightarrow> string \<Rightarrow> (string \<times> delta list) list \<Rightarrow> store \<Rightarrow> error + store" where
  "process_jobs now cid [] s = Inr s"
| "process_jobs now cid (jd # rest) s =
     (case process_job now cid s jd of Inl e \<Rightarrow> Inl e | Inr s' \<Rightarrow> process_jobs now cid rest s')"

subsection \<open>edit-qty: the handler\<close>

text \<open>The clean-up of \<^verbatim>\<open>bill.jobs\<close> before the bill is saved.\<close>

definition prune_jobs :: "bill_job list \<Rightarrow> bill_job list" where
  "prune_jobs js =
     filter (\<lambda>job. length (ops job) > 0)
       (map (\<lambda>job. \<lparr>jobNumber = jobNumber job, clientName = clientName job,
                    jobTitle = jobTitle job,
                    ops = filter (\<lambda>bop. qtyCompleted bop > 0) (ops job)\<rparr>) js)"

text \<open>
  \<^verbatim>\<open>router.put('/:billNumber/edit-qty', ...)\<close>. \<open>cid\<close> is \<^verbatim>\<open>req.body.contractorId\<close> (\<open>None\<close>
  when absent or \<^verbatim>\<open>null\<close>), \<open>chs\<close> is \<^verbatim>\<open>req.body.changes\<close> (\<open>None\<close> when it is not an array).
  Every rejection aborts the transaction, so the store is the one the handler was given.
\<close>

definition editBillQuantities ::
  "nat \<Rightarrow> store \<Rightarrow> string \<Rightarrow> string option \<Rightarrow> change list option \<Rightarrow> response \<times> store" where
  "editBillQuantities now s bn cid chs =
     (case cid of None \<Rightarrow> (Rejected ContractorIdRequired, s) | Some contractor \<Rightarrow>
      if trim contractor = [] then (Rejected ContractorIdRequired, s) else
      case chs of None \<Rightarrow> (Rejected ChangesRequired, s) | Some changes \<Rightarrow>
      if length changes = 0 then (Rejected ChangesRequired, s) else
      case bills s bn of None \<Rightarrow> (Rejected BillNotFound, s) | Some b \<Rightarrow>
      if paymentStatus b = ''Yes'' then (Rejected BillAlreadyPaid, s) else
      case apply_changes (billOpsMap (jobs b)) changes (jobs b, []) of
        Inl e \<Rightarrow> (Rejected e, s)
      | Inr (js, deltasByJob) \<Rightarrow>
          if length deltasByJob = 0 then (BillJson b, s) else
          case process_jobs now contractor deltasByJob s of
            Inl e \<Rightarrow> (Rejected e, s)
          | Inr s1 \<Rightarrow>
              let b' = b\<lparr>jobs := prune_jobs js\<rparr>
              in (BillJson b', s1\<lparr>bills := (bills s1)(bn \<mapsto> b')\<rparr>))"

subsection \<open>Soft delete: the reversal\<close>

text \<open>\<^verbatim>\<open>Operation.findOne({ opsName: op.opsName.trim() })\<close>\<close>

definition findOperation :: "operation list \<Rightarrow> string \<Rightarrow> operation option" where
  "findOperation cat nm = find (\<lambda>x. op_opsName x = trim nm) cat"

text \<open>\<^verbatim>\<open>String(od.opsId)\<close>\<close>

definition opsIdString :: "string option \<Rightarrow> string" where
  "opsIdString v = (case v of None \<Rightarrow> ''null'' | Some i \<Rightarrow> i)"

text \<open>The body of the first \<^verbatim>\<open>for (const op of job.ops)\<close>: pending work is given back.\<close>

definition restore_pending :: "nat \<Rightarrow> operation list \<Rightarrow> job_op list \<Rightarrow> bill_op \<Rightarrow> job_op list" where
  "restore_pending now cat jops bop =
     (case findOperation cat (opsName bop) of None \<Rightarrow> jops | Some x \<Rightarrow>
      case findIndex (\<lambda>jop. opId jop = op_id x) jops of None \<Rightarrow> jops | Some k \<Rightarrow>
        jops[k := (jops ! k)\<lparr>pendingOpsQty := max 0 (pendingOpsQty (jops ! k) + qtyCompleted bop),
                              lastUpdatedDate := now\<rparr>])"

text \<open>The body of the second \<^verbatim>\<open>for (const op of job.ops)\<close>: completed work is taken back.\<close>

definition reverse_done :: "operation list \<Rightarrow> wd_op list \<Rightarrow> bill_op \<Rightarrow> wd_op list" where
  "reverse_done cat ods bop =
     (case findOperation cat (opsName bop) of None \<Rightarrow> ods | Some x \<Rightarrow>
      case findIndex (\<lambda>od. opsIdString (opsId od) = op_id x) ods of None \<Rightarrow> ods | Some k \<Rightarrow>
        let newQty = max 0 (opsDoneQty (ods ! k) - qtyCompleted bop);
            ods1 = ods[k := (ods ! k)\<lparr>opsDoneQty := newQty\<rparr>]
        in if newQty \<le> 0 then filter (\<lambda>od. opsIdString (opsId od) \<noteq> op_id x) ods1 else ods1)"

text \<open>One turn of \<^verbatim>\<open>for (const job of bill.jobs)\<close>.\<close>

definition reverse_job :: "nat \<Rightarrow> string \<Rightarrow> store \<Rightarrow> bill_job \<Rightarrow> store" where
  "reverse_job now cid s job =
     (let s1 = (case masters s (jobNumber job) of
                  None \<Rightarrow> s
                | Some jobOpsMaster \<Rightarrow>
                    s\<lparr>masters := (masters s)(jobNumber job \<mapsto>
                        jobOpsMaster\<lparr>master_ops :=
                          foldl (restore_pending now (operations s)) (master_ops jobOpsMaster)
                            (ops job)\<rparr>)\<rparr>)
      in case ledgers s1 (cid, jobNumber job) of
           None \<Rightarrow> s1
         | Some contractorWD \<Rightarrow>
             let ods = foldl (reverse_done (operations s1)) (opsDone contractorWD) (ops job)
             in if length ods > 0
                then s1\<lparr>ledgers := (ledgers s1)((cid, jobNumber job) \<mapsto> contractorWD\<lparr>opsDone := ods\<rparr>)\<rparr>
                else s1\<lparr>ledgers := (ledgers s1)((cid, jobNumber job) := None)\<rparr>)"

text \<open>\<^verbatim>\<open>router.delete('/:billNumber', ...)\<close>; it runs outside any transaction.\<close>

definition deleteBill :: "nat \<Rightarrow> store \<Rightarrow> string \<Rightarrow> response \<times> store" where
  "deleteBill now s bn =
     (case bills s bn of None \<Rightarrow> (Rejected BillNotFound, s) | Some b \<Rightarrow>
      if isDeleted b then (Rejected BillNotFound, s) else
      case contractors s (trim (contractorName b)) of
        None \<Rightarrow> (Rejected ContractorNotFound, s)
      | Some cid \<Rightarrow>
          let s1 = foldl (reverse_job now cid) s (jobs b)
          in (Deleted, s1\<lparr>bills := (bills s1)(bn \<mapsto> b\<lparr>isDeleted := True\<rparr>)\<rparr>))"

subsection \<open>Notions used in the statements and proofs\<close>

text \<open>
  What identifies an operation of a master and never changes in an edit, and the bounds of
  the pending quantity.
\<close>

definition op_key :: "job_op \<Rightarrow> string \<times> real \<times> real" where
  "op_key jop = (opId jop, valuePerBook jop, totalOpsQty jop)"

definition pending_ok :: "job_op \<Rightarrow> bool" where
  "pending_ok jop = (0 \<le> pendingOpsQty jop \<and> pendingOpsQty jop \<le> totalOpsQty jop)"

text \<open>
  A change that asks for the quantity its line of the bill already has: its fields are
  present, the quantity is a non-negative number, and \<^verbatim>\<open>billOpsMap\<close> has a line for its key
  whose \<open>qtyCompleted\<close> is that number.
\<close>

definition restates_quantity :: "bill_job list \<Rightarrow> change \<Rightarrow> bool" where
  "restates_quantity js c =
     (case (ch_jobNumber c, ch_opsName c, newQtyCompleted c) of
        (Some jn, Some nm, Some (Finite q)) \<Rightarrow>
          trim jn \<noteq> [] \<and> trim nm \<noteq> [] \<and> 0 \<le> q \<and>
          (case billOpsMap js (buildKey jn nm (number_or_zero (ch_rate c))) of
             None \<Rightarrow> False
           | Some (j, i) \<Rightarrow> qtyCompleted (ops (js ! j) ! i) = q)
      | _ \<Rightarrow> False)"

text \<open>
  No document of completed work is left empty by a step from \<open>s\<close> to \<open>s'\<close>: a document of
  \<open>s'\<close> has an entry, or it is the document \<open>s\<close> had under the same key.
\<close>

definition no_new_empty :: "store \<Rightarrow> store \<Rightarrow> bool" where
  "no_new_empty s s' =
     (\<forall>key wd. ledgers s' key = Some wd \<longrightarrow> opsDone wd \<noteq> [] \<or> ledgers s key = Some wd)"

text \<open>The lines of the jobs of a bill that carry a given job number, in the order of the bill.\<close>

definition job_lines :: "string \<Rightarrow> bill_job list \<Rightarrow> bill_op list" where
  "job_lines jn js = concat (map ops (filter (\<lambda>job. jobNumber job = jn) js))"


text \<open>
  The clamp of edit-qty does not engage when the deltas \<open>xs\<close> are applied in turn to a pending
  quantity \<open>p\<close> of an operation with total \<open>t\<close>: every new pending quantity is within \<open>[0, t]\<close>.
\<close>

fun unclamped :: "real \<Rightarrow> real \<Rightarrow> real list \<Rightarrow> bool" where
  "unclamped p t [] = True"
| "unclamped p t (x # xs) = (0 \<le> p - x \<and> p - x \<le> t \<and> unclamped (p - x) t xs)"

text \<open>
  A line of the bill is matched to the operation at position \<open>k\<close> of a master when the
  search of edit-qty, by trimmed name and rate rounded to two decimals, finds that position
  for it; \<open>billed_for\<close> is the completed quantity that the lines of job \<open>jn\<close> matched to
  position \<open>k\<close> hold together.
\<close>

definition line_matches :: "(string \<rightharpoonup> string) \<Rightarrow> job_op list \<Rightarrow> nat \<Rightarrow> bill_op \<Rightarrow> bool" where
  "line_matches nmap jops k bop =
     (find_job_op nmap jops \<lparr>d_opsName = trim (opsName bop), d_rate = rate bop, deltaQty = 0\<rparr>
        = Some k)"

definition billed_for :: "(string \<rightharpoonup> string) \<Rightarrow> job_op list \<Rightarrow> nat \<Rightarrow> string \<Rightarrow> bill_job list \<Rightarrow> real" where
  "billed_for nmap jops k jn js =
     sum_list (map qtyCompleted (filter (line_matches nmap jops k) (job_lines jn js)))"

text \<open>No line of the bill has a negative completed quantity.\<close>

definition nonneg_lines :: "bill_job list \<Rightarrow> bool" where
  "nonneg_lines js = (\<forall>job \<in> set js. \<forall>bop \<in> set (ops job). 0 \<le> qtyCompleted bop)"

text \<open>
  For the proofs: the same sums written job by job and line by line, for any condition on
  name and rate; the part of a bill that an edit never changes.
\<close>

definition line_qty :: "(string \<Rightarrow> real \<Rightarrow> bool) \<Rightarrow> bill_op \<Rightarrow> real" where
  "line_qty Q bop = (if Q (trim (opsName bop)) (rate bop) then qtyCompleted bop else 0)"

definition job_qty :: "(string \<Rightarrow> real \<Rightarrow> bool) \<Rightarrow> string \<Rightarrow> bill_job \<Rightarrow> real" where
  "job_qty Q jn job = (if jobNumber job = jn then sum_list (map (line_qty Q) (ops job)) else 0)"

definition bill_qty :: "(string \<Rightarrow> real \<Rightarrow> bool) \<Rightarrow> string \<Rightarrow> bill_job list \<Rightarrow> real" where
  "bill_qty Q jn js = sum_list (map (job_qty Q jn) js)"

definition delta_qty :: "(string \<Rightarrow> real \<Rightarrow> bool) \<Rightarrow> delta \<Rightarrow> real" where
  "delta_qty Q d = (if Q (d_opsName d) (d_rate d) then deltaQty d else 0)"

definition deltas_qty :: "(string \<Rightarrow> real \<Rightarrow> bool) \<Rightarrow> string \<Rightarrow> (string \<times> delta list) list \<Rightarrow> real" where
  "deltas_qty Q jn dbj =
     sum_list (map (\<lambda>(k, ds). if k = jn then sum_list (map (delta_qty Q) ds) else 0) dbj)"

definition bill_shape :: "bill_job list \<Rightarrow> (string \<times> (string \<times> real) list) list" where
  "bill_shape js = map (\<lambda>job. (jobNumber job, map (\<lambda>bop. (opsName bop, rate bop)) (ops job))) js"

definition matched_at :: "(string \<rightharpoonup> string) \<Rightarrow> job_op list \<Rightarrow> nat \<Rightarrow> string \<Rightarrow> real \<Rightarrow> bool" where
  "matched_at nmap jops k nm r =
     (find_job_op nmap jops \<lparr>d_opsName = nm, d_rate = r, deltaQty = 0\<rparr> = Some k)"

subsection \<open>Stores used as concrete inputs\<close>

text \<open>A bill of one job and one line, \<open>{opsName: "Drilling", rate: 10, qtyCompleted: 5}\<close>.\<close>

definition drilling_bill :: "string \<Rightarrow> bill" where
  "drilling_bill paid =
     \<lparr>billNumber = ''00000001'', contractorName = ''Ram'', paymentStatus = paid,
      isDeleted = False,
      jobs = [\<lparr>jobNumber = ''J1'', clientName = ''Client'', jobTitle = ''Title'',
               ops = [\<lparr>opsName = ''Drilling'', qtyBook = 10, rate = 10, qtyCompleted = 5,
                       totalValue = 50\<rparr>]\<rparr>]\<rparr>"

definition drilling_master :: "real \<Rightarrow> jobops_master" where
  "drilling_master pending =
     \<lparr>jobId = ''J1'',
      master_ops = [\<lparr>opId = ''65a1b2c3d4e5f60718293a4b'', valuePerBook = 10, totalOpsQty = 10,
                     pendingOpsQty = pending, lastUpdatedDate = 0\<rparr>]\<rparr>"

text \<open>
  The store around that bill: the master of job J1 with the given pending quantity, no
  document of completed work yet, the catalog with the one operation.
\<close>

definition drilling_store :: "string \<Rightarrow> real \<Rightarrow> store" where
  "drilling_store paid pending =
     \<lparr>bills = [''00000001'' \<mapsto> drilling_bill paid],
      masters = [''J1'' \<mapsto> drilling_master pending],
      ledgers = Map.empty,
      operations = [\<lparr>op_id = ''65a1b2c3d4e5f60718293a4b'', op_opsName = ''Drilling''\<rparr>],
      contractors = [''Ram'' \<mapsto> ''c1'']\<rparr>"

definition drilling_change :: "real \<Rightarrow> change" where
  "drilling_change q =
     \<lparr>ch_jobNumber = Some ''J1'', ch_opsName = Some ''Drilling'', ch_rate = Some (Finite 10),
      newQtyCompleted = Some (Finite q)\<rparr>"

text \<open>A change with no field at all, as \<^verbatim>\<open>{}\<close> or \<^verbatim>\<open>null\<close> in the array.\<close>

definition blank_change :: change where
  "blank_change =
     \<lparr>ch_jobNumber = None, ch_opsName = None, ch_rate = None, newQtyCompleted = None\<rparr>"

text \<open>
  The store of \<open>drilling_store\<close> with a document of completed work of contractor c1 for job
  J1: one entry for Drilling with the given \<open>opsId\<close> and quantity.
\<close>

definition drilling_ledger :: "string option \<Rightarrow> real \<Rightarrow> contractor_wd" where
  "drilling_ledger oid done =
     \<lparr>contractorId = ''c1'', wd_jobId = ''J1'',
      opsDone = [\<lparr>opsId = oid, wd_opsName = ''Drilling'', wd_valuePerBook = 10,
                  opsDoneQty = done, completionDate = 0\<rparr>]\<rparr>"

definition billed_store :: "real \<Rightarrow> string option \<Rightarrow> real \<Rightarrow> store" where
  "billed_store pending oid done =
     (drilling_store ''No'' pending)\<lparr>ledgers := [(''c1'', ''J1'') \<mapsto> drilling_ledger oid done]\<rparr>"

text \<open>
  The store after the edit that raises the line of \<open>drilling_store\<close> from 5 to 8 (contractor
  c1, at time 7), and the document of completed work which that edit creates.
\<close>

definition edited_ledger :: contractor_wd where
  "edited_ledger =
     \<lparr>contractorId = ''c1'', wd_jobId = ''J1'',
      opsDone = [\<lparr>opsId = None, wd_opsName = ''Drilling'', wd_valuePerBook = 10,
                  opsDoneQty = 3, completionDate = 7\<rparr>]\<rparr>"

definition edited_store :: store where
  "edited_store =
     snd (editBillQuantities 7 (drilling_store ''No'' 5) ''00000001'' (Some ''c1'')
            (Some [drilling_change 8]))"

text \<open>
  A bill with two lines for Drilling on job J1 whose rates, 10.001 and 10.002, differ in the
  third decimal, the master of J1 with the one operation Drilling at 10 per book (pending
  10 of 20), and a request that raises the first line from 5 to 6 and the second from 5 to 7.
\<close>

definition two_rate_jobs :: "real \<Rightarrow> real \<Rightarrow> bill_job list" where
  "two_rate_jobs q1 q2 =
     [\<lparr>jobNumber = ''J1'', clientName = ''Client'', jobTitle = ''Title'',
       ops = [\<lparr>opsName = ''Drilling'', qtyBook = 10, rate = 10001 / 1000, qtyCompleted = q1,
               totalValue = 10001 / 1000 * q1\<rparr>,
              \<lparr>opsName = ''Drilling'', qtyBook = 10, rate = 10002 / 1000, qtyCompleted = q2,
               totalValue = 10002 / 1000 * q2\<rparr>]\<rparr>]"

definition two_rate_bill :: bill where
  "two_rate_bill =
     \<lparr>billNumber = ''00000002'', contractorName = ''Ram'', paymentStatus = ''No'',
      isDeleted = False, jobs = two_rate_jobs 5 5\<rparr>"

definition two_rate_ops :: "real \<Rightarrow> nat \<Rightarrow> job_op list" where
  "two_rate_ops pending date =
     [\<lparr>opId = ''65a1b2c3d4e5f60718293a4b'', valuePerBook = 10, totalOpsQty = 20, pendingOpsQty = pending,
       lastUpdatedDate = date\<rparr>]"

definition two_rate_store :: store where
  "two_rate_store =
     \<lparr>bills = [''00000002'' \<mapsto> two_rate_bill],
      masters = [''J1'' \<mapsto> \<lparr>jobId = ''J1'', master_ops = two_rate_ops 10 0\<rparr>],
      ledgers = Map.empty,
      operations = [\<lparr>op_id = ''65a1b2c3d4e5f60718293a4b'', op_opsName = ''Drilling''\<rparr>],
      contractors = [''Ram'' \<mapsto> ''c1'']\<rparr>"

definition two_rate_changes :: "change list" where
  "two_rate_changes =
     [\<lparr>ch_jobNumber = Some ''J1'', ch_opsName = Some ''Drilling'',
       ch_rate = Some (Finite (10001 / 1000)), newQtyCompleted = Some (Finite 6)\<rparr>,
      \<lparr>ch_jobNumber = Some ''J1'', ch_opsName = Some ''Drilling'',
       ch_rate = Some (Finite (10002 / 1000)), newQtyCompleted = Some (Finite 7)\<rparr>]"

section \<open>Properties of the two handlers\<close>

subsection \<open>Evaluation at concrete inputs\<close>

lemmas eval_defs = buildKey_def trim_def is_space_def toFixed_def scaled_def digits.simps
  billOpsMap_def bill_entries_def enumerate_eq_zip apply_change_def number_or_zero_def Let_def
  round2_def operationNameMap_def jopName_def find_job_op_def apply_delta_def
  apply_adjustment_def process_job_def prune_jobs_def editBillQuantities_def
  drilling_bill_def drilling_change_def drilling_store_def drilling_master_def

lemmas eval_delete_defs = deleteBill_def reverse_job_def restore_pending_def reverse_done_def
  findOperation_def opsIdString_def billed_store_def drilling_ledger_def

lemmas eval_two_rate_defs = two_rate_jobs_def two_rate_bill_def two_rate_ops_def
  two_rate_store_def two_rate_changes_def job_lines_def billed_for_def line_matches_def

subsection \<open>The loops of the handler\<close>

lemma findIndex_Some:
  "findIndex P xs = Some k \<Longrightarrow> k < length xs \<and> P (xs ! k)"
  by (induction xs arbitrary: k) (auto split: if_splits)

lemma findIndex_map_cong:
  assumes "map P xs = map P ys"
  shows "findIndex P xs = findIndex P ys"
proof -
  have "length xs = length ys"
    using assms by (rule map_eq_imp_length_eq)
  then show ?thesis
    using assms by (induction xs ys rule: list_induct2) simp_all
qed

lemma find_job_op_keys:
  assumes "map op_key jops = map op_key jops'"
  shows "find_job_op nmap jops d = find_job_op nmap jops' d"
proof -
  define Q where "Q = (\<lambda>(i, v, t :: real). (case nmap i of None \<Rightarrow> ''Unknown'' | Some n \<Rightarrow> if n = [] then ''Unknown'' else n) = trim (d_opsName d) \<and> round2 v = round2 (d_rate d))"
  have P: "(\<lambda>jop. jopName nmap jop = trim (d_opsName d) \<and> round2 (valuePerBook jop) = round2 (d_rate d)) = Q \<circ> op_key"
    by (simp add: op_key_def jopName_def fun_eq_iff Q_def)
  have "map (Q \<circ> op_key) jops = map (Q \<circ> op_key) jops'"
    using arg_cong [OF assms, of "map Q"] by simp
  then show ?thesis
    unfolding find_job_op_def Let_def P by (rule findIndex_map_cong)
qed

lemma find_job_op_Some:
  "find_job_op nmap jops d = Some k \<Longrightarrow> k < length jops"
  unfolding find_job_op_def Let_def by (drule findIndex_Some) simp

lemma apply_delta_Inr:
  assumes "apply_delta now nmap d (jops, adjs) = Inr (jops', adjs')"
  shows "\<exists>k. find_job_op nmap jops d = Some k \<and>
             \<not> pendingOpsQty (jops ! k) - deltaQty d < 0 - 1 / 1000000 \<and>
             jops' = jops[k := (jops ! k)\<lparr>pendingOpsQty :=
                        max 0 (min (totalOpsQty (jops ! k)) (pendingOpsQty (jops ! k) - deltaQty d)),
                      lastUpdatedDate := now\<rparr>] \<and>
             adjs' = adjs @ [\<lparr>a_opsName = trim (d_opsName d),
                                a_valuePerBook = valuePerBook (jops ! k),
                                a_deltaQty = deltaQty d\<rparr>]"
  using assms by (simp add: apply_delta_def Let_def split: option.splits if_splits)

lemma map_update_same:
  "k < length xs \<Longrightarrow> f x = f (xs ! k) \<Longrightarrow> map f (xs[k := x]) = map f xs"
  by (simp add: map_update list_update_same_conv)

lemma apply_delta_keys:
  assumes "apply_delta now nmap d (jops, adjs) = Inr (jops', adjs')"
  shows "map op_key jops' = map op_key jops"
proof -
  from apply_delta_Inr [OF assms] obtain k where k: "find_job_op nmap jops d = Some k"
    and j: "jops' = jops[k := (jops ! k)\<lparr>pendingOpsQty :=
                        max 0 (min (totalOpsQty (jops ! k)) (pendingOpsQty (jops ! k) - deltaQty d)),
                      lastUpdatedDate := now\<rparr>]"
    by blast
  show ?thesis
    unfolding j by (rule map_update_same [OF find_job_op_Some [OF k]]) (simp add: op_key_def)
qed

lemma apply_deltas_keys:
  "apply_deltas now nmap ds (jops, adjs) = Inr (jops', adjs') \<Longrightarrow> map op_key jops' = map op_key jops"
proof (induction ds arbitrary: jops adjs)
  case Nil
  then show ?case by simp
next
  case (Cons d ds)
  from Cons.prems obtain jops1 adjs1 where
    1: "apply_delta now nmap d (jops, adjs) = Inr (jops1, adjs1)" and
    2: "apply_deltas now nmap ds (jops1, adjs1) = Inr (jops', adjs')"
    by (auto split: sum.splits)
  show ?case
    using Cons.IH [OF 2] apply_delta_keys [OF 1] by simp
qed

lemma keys_total:
  assumes "map op_key jops' = map op_key jops" and "k < length jops"
  shows "totalOpsQty (jops' ! k) = totalOpsQty (jops ! k)"
proof -
  have "length jops' = length jops"
    using assms(1) by (rule map_eq_imp_length_eq)
  then have "op_key (jops' ! k) = op_key (jops ! k)"
    using assms nth_map [of k jops' op_key] nth_map [of k jops op_key] by simp
  then show ?thesis
    by (simp add: op_key_def)
qed

lemma apply_delta_pending:
  assumes "apply_delta now nmap d (jops, adjs) = Inr (jops', adjs')"
    and "k < length jops" and "0 \<le> totalOpsQty (jops ! k)"
    and "find_job_op nmap jops d = Some k \<or> pending_ok (jops ! k)"
  shows "pending_ok (jops' ! k)"
proof -
  from apply_delta_Inr [OF assms(1)] obtain k' where k': "find_job_op nmap jops d = Some k'"
    and j: "jops' = jops[k' := (jops ! k')\<lparr>pendingOpsQty :=
                        max 0 (min (totalOpsQty (jops ! k')) (pendingOpsQty (jops ! k') - deltaQty d)),
                      lastUpdatedDate := now\<rparr>]"
    by blast
  show ?thesis
  proof (cases "k' = k")
    case True
    then show ?thesis
      using assms(2,3) by (simp add: j pending_ok_def)
  next
    case False
    then show ?thesis
      using assms(4) k' by (simp add: j)
  qed
qed

lemma apply_deltas_pending:
  assumes "apply_deltas now nmap ds (jops, adjs) = Inr (jops', adjs')"
    and "k < length jops" and "0 \<le> totalOpsQty (jops ! k)"
    and "(\<exists>d \<in> set ds. find_job_op nmap jops d = Some k) \<or> pending_ok (jops ! k)"
  shows "pending_ok (jops' ! k)"
  using assms
proof (induction ds arbitrary: jops adjs)
  case Nil
  then show ?case by simp
next
  case (Cons d ds)
  from Cons.prems(1) obtain jops1 adjs1 where
    1: "apply_delta now nmap d (jops, adjs) = Inr (jops1, adjs1)" and
    2: "apply_deltas now nmap ds (jops1, adjs1) = Inr (jops', adjs')"
    by (auto split: sum.splits)
  note keys = apply_delta_keys [OF 1]
  have len: "k < length jops1"
    using map_eq_imp_length_eq [OF keys] Cons.prems(2) by simp
  have tot: "0 \<le> totalOpsQty (jops1 ! k)"
    using keys_total [OF keys Cons.prems(2)] Cons.prems(3) by simp
  have same: "find_job_op nmap jops1 d' = find_job_op nmap jops d'" for d'
    by (rule find_job_op_keys [OF keys])
  have "(\<exists>d \<in> set ds. find_job_op nmap jops1 d = Some k) \<or> pending_ok (jops1 ! k)"
  proof (cases "\<exists>d \<in> set ds. find_job_op nmap jops d = Some k")
    case True
    then show ?thesis by (simp add: same)
  next
    case False
    with Cons.prems(4) have "find_job_op nmap jops d = Some k \<or> pending_ok (jops ! k)"
      by auto
    from apply_delta_pending [OF 1 Cons.prems(2,3) this] show ?thesis ..
  qed
  from Cons.IH [OF 2 len tot this] show ?case .
qed


lemma push_delta_keys:
  "map fst (push_delta jn d dbj) =
     (if jn \<in> set (map fst dbj) then map fst dbj else map fst dbj @ [jn])"
  by (induction jn d dbj rule: push_delta.induct) (auto simp add: rev_image_eqI)

lemma push_delta_distinct:
  "distinct (map fst dbj) \<Longrightarrow> distinct (map fst (push_delta jn d dbj))"
  by (simp add: push_delta_keys)

lemma apply_change_distinct:
  assumes "apply_change bmap c (js, dbj) = Inr (js', dbj')" and "distinct (map fst dbj)"
  shows "distinct (map fst dbj')"
  using assms
  by (auto simp add: apply_change_def Let_def push_delta_distinct
      split: option.splits if_splits jsnum.splits prod.splits)

lemma apply_changes_distinct:
  "apply_changes bmap cs (js, dbj) = Inr (js', dbj') \<Longrightarrow> distinct (map fst dbj) \<Longrightarrow>
   distinct (map fst dbj')"
proof (induction cs arbitrary: js dbj)
  case Nil
  then show ?case by simp
next
  case (Cons c cs)
  from Cons.prems(1) obtain js1 dbj1 where
    1: "apply_change bmap c (js, dbj) = Inr (js1, dbj1)" and
    2: "apply_changes bmap cs (js1, dbj1) = Inr (js', dbj')"
    by (auto split: sum.splits)
  from Cons.IH [OF 2 apply_change_distinct [OF 1 Cons.prems(2)]] show ?case .
qed

lemma process_job_Inr:
  assumes "process_job now c s (jn, ds) = Inr s'"
  shows "\<exists>m jops adjs. masters s jn = Some m \<and>
           apply_deltas now (operationNameMap (operations s) (master_ops m)) ds (master_ops m, [])
             = Inr (jops, adjs) \<and>
           masters s' = (masters s)(jn \<mapsto> m\<lparr>master_ops := jops\<rparr>) \<and>
           operations s' = operations s \<and> bills s' = bills s \<and> contractors s' = contractors s"
  using assms
  by (auto simp add: process_job_def Let_def split: option.splits sum.splits if_splits)

lemma process_jobs_frame:
  "process_jobs now c dbj s = Inr s' \<Longrightarrow>
   operations s' = operations s \<and> bills s' = bills s \<and> contractors s' = contractors s \<and>
   (\<forall>jn. jn \<notin> fst ` set dbj \<longrightarrow> masters s' jn = masters s jn)"
proof (induction dbj arbitrary: s)
  case Nil
  then show ?case by simp
next
  case (Cons jd dbj)
  obtain jn ds where jd: "jd = (jn, ds)" by (cases jd)
  from Cons.prems obtain s1 where
    1: "process_job now c s (jn, ds) = Inr s1" and
    2: "process_jobs now c dbj s1 = Inr s'"
    by (auto simp add: jd split: sum.splits)
  from process_job_Inr [OF 1] Cons.IH [OF 2] show ?case
    by (auto simp add: jd)
qed

lemma process_jobs_master:
  assumes "process_jobs now c dbj s = Inr s'" and "distinct (map fst dbj)"
    and "(jn, ds) \<in> set dbj"
  shows "\<exists>m jops adjs. masters s jn = Some m \<and>
           apply_deltas now (operationNameMap (operations s) (master_ops m)) ds (master_ops m, [])
             = Inr (jops, adjs) \<and>
           masters s' jn = Some (m\<lparr>master_ops := jops\<rparr>)"
  using assms
proof (induction dbj arbitrary: s)
  case Nil
  then show ?case by simp
next
  case (Cons jd dbj)
  obtain jn1 ds1 where jd: "jd = (jn1, ds1)" by (cases jd)
  from Cons.prems(1) obtain s1 where
    1: "process_job now c s (jn1, ds1) = Inr s1" and
    2: "process_jobs now c dbj s1 = Inr s'"
    by (auto simp add: jd split: sum.splits)
  from process_job_Inr [OF 1] obtain m jops adjs where
    m: "masters s jn1 = Some m" and
    a: "apply_deltas now (operationNameMap (operations s) (master_ops m)) ds1 (master_ops m, [])
             = Inr (jops, adjs)" and
    ms: "masters s1 = (masters s)(jn1 \<mapsto> m\<lparr>master_ops := jops\<rparr>)" and
    os: "operations s1 = operations s"
    by blast
  from Cons.prems(2) have d: "distinct (map fst dbj)" and n: "jn1 \<notin> fst ` set dbj"
    by (simp_all add: jd)
  show ?case
  proof (cases "(jn, ds) = (jn1, ds1)")
    case True
    from process_jobs_frame [OF 2] n have "masters s' jn1 = masters s1 jn1"
      by blast
    with True m a ms show ?thesis
      by auto
  next
    case False
    with Cons.prems(3) have i: "(jn, ds) \<in> set dbj"
      by (auto simp add: jd)
    then have "jn \<noteq> jn1"
      using n by force
    with Cons.IH [OF 2 d i] ms os show ?thesis
      by simp
  qed
qed

lemma edit_success:
  assumes "editBillQuantities now s bn cid chs = (BillJson b', s')"
  shows "\<exists>c changes b js dbj. cid = Some c \<and> trim c \<noteq> [] \<and> chs = Some changes \<and> changes \<noteq> [] \<and>
           bills s bn = Some b \<and> paymentStatus b \<noteq> ''Yes'' \<and>
           apply_changes (billOpsMap (jobs b)) changes (jobs b, []) = Inr (js, dbj) \<and>
           (if dbj = [] then b' = b \<and> s' = s
            else \<exists>s1. process_jobs now c dbj s = Inr s1 \<and> b' = b\<lparr>jobs := prune_jobs js\<rparr> \<and>
                   s' = s1\<lparr>bills := (bills s1)(bn \<mapsto> b')\<rparr>)"
  using assms
  by (auto simp add: editBillQuantities_def Let_def split: option.splits sum.splits if_splits prod.splits)


lemma apply_deltas_append:
  "apply_deltas now nmap (ds1 @ ds2) st =
     (case apply_deltas now nmap ds1 st of Inl e \<Rightarrow> Inl e
      | Inr st1 \<Rightarrow> apply_deltas now nmap ds2 st1)"
  by (induction ds1 arbitrary: st) (simp_all split: sum.splits)

lemma process_jobs_append:
  "process_jobs now c (pre @ post) s =
     (case process_jobs now c pre s of Inl e \<Rightarrow> Inl e
      | Inr s1 \<Rightarrow> process_jobs now c post s1)"
  by (induction pre arbitrary: s) (simp_all split: sum.splits)

subsection \<open>Paid bills\<close>

text \<open>
  Claim C1, as the specification has it: an edit of a bill whose \<open>paymentStatus\<close> is
  \<open>"Yes"\<close> is rejected with BillAlreadyPaid before any other validation, also before
  the checks of \<open>contractorId\<close> and of \<open>changes\<close>. The handler checks the body first: for the
  paid bill of \<open>drilling_store\<close> and a body without \<open>contractorId\<close> the answer is
  "contractorId is required", and for a body whose \<open>changes\<close> is empty it is "At
  least one change is required".
\<close>

theorem paid_bill_body_checked_first:
  "map_option paymentStatus (bills (drilling_store ''Yes'' 5) ''00000001'') = Some ''Yes'' \<and>
   editBillQuantities 1 (drilling_store ''Yes'' 5) ''00000001'' None (Some [drilling_change 8])
     = (Rejected ContractorIdRequired, drilling_store ''Yes'' 5) \<and>
   editBillQuantities 1 (drilling_store ''Yes'' 5) ''00000001'' (Some ''c1'') (Some [])
     = (Rejected ChangesRequired, drilling_store ''Yes'' 5)"
  by (simp add: editBillQuantities_def drilling_store_def drilling_bill_def trim_def is_space_def)

text \<open>
  Claim C1, amended: an edit of a paid bill is always rejected and never changes the store.
  It is rejected with "contractorId is required" when the body has no \<open>contractorId\<close> or a
  blank one, else with "At least one change is required" when \<open>changes\<close> is not an array or
  is empty, and else with BillAlreadyPaid, whatever the changes contain (so before every
  check of a single change).
\<close>

theorem paid_bill_rejected:
  assumes "bills s bn = Some b" and "paymentStatus b = ''Yes''"
  shows "editBillQuantities now s bn cid chs =
           (Rejected (if (case cid of None \<Rightarrow> True | Some c \<Rightarrow> trim c = [])
                      then ContractorIdRequired
                      else if (case chs of None \<Rightarrow> True | Some changes \<Rightarrow> changes = [])
                      then ChangesRequired
                      else BillAlreadyPaid), s) \<and>
         (cid = Some c \<and> trim c \<noteq> [] \<and> chs = Some changes \<and> changes \<noteq> [] \<longrightarrow>
            editBillQuantities now s bn cid chs = (Rejected BillAlreadyPaid, s))"
  using assms by (simp add: editBillQuantities_def split: option.splits)

theorem paid_bill_rejected_witness:
  "bills (drilling_store ''Yes'' 5) ''00000001'' = Some (drilling_bill ''Yes'') \<and>
   paymentStatus (drilling_bill ''Yes'') = ''Yes'' \<and>
   trim ''c1'' \<noteq> [] \<and> [blank_change, drilling_change (- 1)] \<noteq> [] \<and>
   editBillQuantities 1 (drilling_store ''Yes'' 5) ''00000001'' (Some ''c1'')
       (Some [blank_change, drilling_change (- 1)])
     = (Rejected BillAlreadyPaid, drilling_store ''Yes'' 5) \<and>
   editBillQuantities 1 (drilling_store ''Yes'' 5) ''00000001'' None (Some [drilling_change 8])
     = (Rejected ContractorIdRequired, drilling_store ''Yes'' 5) \<and>
   editBillQuantities 1 (drilling_store ''Yes'' 5) ''00000001'' (Some ''  '') (Some [drilling_change 8])
     = (Rejected ContractorIdRequired, drilling_store ''Yes'' 5) \<and>
   editBillQuantities 1 (drilling_store ''Yes'' 5) ''00000001'' (Some ''c1'') (Some [])
     = (Rejected ChangesRequired, drilling_store ''Yes'' 5) \<and>
   editBillQuantities 1 (drilling_store ''Yes'' 5) ''00000001'' (Some ''c1'') None
     = (Rejected ChangesRequired, drilling_store ''Yes'' 5)"
proof -
  let ?s = "drilling_store ''Yes'' 5"
  have b: "bills ?s ''00000001'' = Some (drilling_bill ''Yes'')"
    by (simp add: drilling_store_def)
  have p: "paymentStatus (drilling_bill ''Yes'') = ''Yes''"
    by (simp add: drilling_bill_def)
  have c: "trim ''c1'' \<noteq> []" and e: "trim ''  '' = []"
    by (simp_all add: trim_def is_space_def)
  note t = paid_bill_rejected [OF b p]
  from t [of 1 "Some ''c1''" "Some [blank_change, drilling_change (- 1)]" "''c1''"
      "[blank_change, drilling_change (- 1)]"] c
  have 1: "editBillQuantities 1 ?s ''00000001'' (Some ''c1'')
             (Some [blank_change, drilling_change (- 1)]) = (Rejected BillAlreadyPaid, ?s)"
    by simp
  from t [of 1 None "Some [drilling_change 8]"]
  have 2: "editBillQuantities 1 ?s ''00000001'' None (Some [drilling_change 8])
             = (Rejected ContractorIdRequired, ?s)"
    by simp
  from t [of 1 "Some ''  ''" "Some [drilling_change 8]"] e
  have 3: "editBillQuantities 1 ?s ''00000001'' (Some ''  '') (Some [drilling_change 8])
             = (Rejected ContractorIdRequired, ?s)"
    by simp
  from t [of 1 "Some ''c1''" "Some []"] c
  have 4: "editBillQuantities 1 ?s ''00000001'' (Some ''c1'') (Some []) = (Rejected ChangesRequired, ?s)"
    by simp
  from t [of 1 "Some ''c1''" None] c
  have 5: "editBillQuantities 1 ?s ''00000001'' (Some ''c1'') None = (Rejected ChangesRequired, ?s)"
    by simp
  from b p c 1 2 3 4 5 show ?thesis
    by simp
qed

subsection \<open>An empty list of changes\<close>

text \<open>
  Claim C10: a call whose \<open>changes\<close> is an empty array, or not an array, is rejected with
  the validation error "At least one change is required" and the store is as it was (a
  body that also lacks the \<open>contractorId\<close> is rejected for that, one check earlier); so a
  call that is answered with the bill had a non-empty list of changes.
\<close>

theorem no_changes_rejected:
  "(chs = None \<or> chs = Some [] \<longrightarrow>
      editBillQuantities now s bn cid chs =
        (Rejected (if (case cid of None \<Rightarrow> True | Some c \<Rightarrow> trim c = [])
                   then ContractorIdRequired else ChangesRequired), s)) \<and>
   (fst (editBillQuantities now s bn cid chs) = BillJson b \<longrightarrow>
      (\<exists>changes. chs = Some changes \<and> changes \<noteq> []))"
  by (auto simp add: editBillQuantities_def split: option.splits if_splits sum.splits prod.splits)

theorem no_changes_rejected_witness:
  "editBillQuantities 1 (drilling_store ''No'' 5) ''00000001'' (Some ''c1'') (Some [])
     = (Rejected ChangesRequired, drilling_store ''No'' 5) \<and>
   editBillQuantities 1 (drilling_store ''No'' 5) ''00000001'' (Some ''c1'') None
     = (Rejected ChangesRequired, drilling_store ''No'' 5) \<and>
   fst (editBillQuantities 1 (drilling_store ''No'' 5) ''00000001'' (Some ''c1'')
          (Some [drilling_change 5])) = BillJson (drilling_bill ''No'') \<and>
   (\<exists>changes. Some [drilling_change 5] = Some changes \<and> changes \<noteq> [])"
proof -
  let ?s = "drilling_store ''No'' 5"
  have t: "trim ''c1'' \<noteq> []"
    by (simp add: trim_def is_space_def)
  have n: "fst (editBillQuantities 1 ?s ''00000001'' (Some ''c1'') (Some [drilling_change 5]))
             = BillJson (drilling_bill ''No'')"
    by (simp add: eval_defs)
  from no_changes_rejected [of "Some []" 1 ?s "''00000001''" "Some ''c1''"] t
  have 1: "editBillQuantities 1 ?s ''00000001'' (Some ''c1'') (Some []) = (Rejected ChangesRequired, ?s)"
    by simp
  from no_changes_rejected [of None 1 ?s "''00000001''" "Some ''c1''"] t
  have 2: "editBillQuantities 1 ?s ''00000001'' (Some ''c1'') None = (Rejected ChangesRequired, ?s)"
    by simp
  from no_changes_rejected [of "Some [drilling_change 5]" 1 ?s "''00000001''" "Some ''c1''"
      "drilling_bill ''No''"] n
  have 3: "\<exists>changes. Some [drilling_change 5] = Some changes \<and> changes \<noteq> []"
    by blast
  from 1 2 n 3 show ?thesis
    by blast
qed

subsection \<open>The bounds of the pending quantity\<close>

text \<open>
  Claim C5: after a successful edit every operation of a JobopsMaster that a delta of the
  edit was applied to has \<open>0 \<le> pendingOpsQty \<le> totalOpsQty\<close>. The operation is the one at
  position \<open>k\<close> of the master of job \<open>jn\<close>, found there for a delta \<open>d\<close> of that job; its
  \<open>totalOpsQty\<close>, which the edit never writes, is taken to be non-negative.
\<close>

theorem pending_within_bounds_after_edit:
  assumes "editBillQuantities now s bn cid (Some changes) = (BillJson b', s')"
    and "bills s bn = Some b"
    and "apply_changes (billOpsMap (jobs b)) changes (jobs b, []) = Inr (js, deltasByJob)"
    and "(jn, deltas) \<in> set deltasByJob" and "d \<in> set deltas"
    and "masters s jn = Some m"
    and "find_job_op (operationNameMap (operations s) (master_ops m)) (master_ops m) d = Some k"
    and "0 \<le> totalOpsQty (master_ops m ! k)"
  shows "\<exists>m'. masters s' jn = Some m' \<and>
           0 \<le> pendingOpsQty (master_ops m' ! k) \<and>
           pendingOpsQty (master_ops m' ! k) \<le> totalOpsQty (master_ops m' ! k)"
proof -
  from edit_success [OF assms(1)] assms(2,3,4) obtain c s1 where
    p: "process_jobs now c deltasByJob s = Inr s1" and
    s': "s' = s1\<lparr>bills := (bills s1)(bn \<mapsto> b')\<rparr>"
    by (auto split: if_splits)
  have "distinct (map fst deltasByJob)"
    using apply_changes_distinct [OF assms(3)] by simp
  from process_jobs_master [OF p this assms(4)] assms(6) obtain jops adjs where
    a: "apply_deltas now (operationNameMap (operations s) (master_ops m)) deltas (master_ops m, [])
          = Inr (jops, adjs)" and
    m': "masters s1 jn = Some (m\<lparr>master_ops := jops\<rparr>)"
    by auto
  have "pending_ok (jops ! k)"
    using apply_deltas_pending [OF a find_job_op_Some [OF assms(7)] assms(8)] assms(5,7)
    by blast
  moreover have "totalOpsQty (jops ! k) = totalOpsQty (master_ops m ! k)"
    by (rule keys_total [OF apply_deltas_keys [OF a] find_job_op_Some [OF assms(7)]])
  ultimately show ?thesis
    using m' by (simp add: s' pending_ok_def)
qed

theorem pending_within_bounds_after_edit_witness:
  "\<exists>m'. masters (snd (editBillQuantities 7 (drilling_store ''No'' 5) ''00000001'' (Some ''c1'')
                       (Some [drilling_change 8]))) ''J1'' = Some m' \<and>
        0 \<le> pendingOpsQty (master_ops m' ! 0) \<and>
        pendingOpsQty (master_ops m' ! 0) \<le> totalOpsQty (master_ops m' ! 0)"
proof -
  let ?s = "drilling_store ''No'' 5"
  let ?r = "editBillQuantities 7 ?s ''00000001'' (Some ''c1'') (Some [drilling_change 8])"
  let ?d = "\<lparr>d_opsName = ''Drilling'', d_rate = 10, deltaQty = 3\<rparr>"
  have 1: "?r = (BillJson (the (bills (snd ?r) ''00000001'')), snd ?r)"
    by (simp add: eval_defs)
  have 2: "bills ?s ''00000001'' = Some (drilling_bill ''No'')"
    by (simp add: drilling_store_def)
  have 3: "apply_changes (billOpsMap (jobs (drilling_bill ''No''))) [drilling_change 8]
             (jobs (drilling_bill ''No''), [])
           = Inr ([\<lparr>jobNumber = ''J1'', clientName = ''Client'', jobTitle = ''Title'',
                    ops = [\<lparr>opsName = ''Drilling'', qtyBook = 10, rate = 10, qtyCompleted = 8,
                            totalValue = 80\<rparr>]\<rparr>], [(''J1'', [?d])])"
    by (simp add: eval_defs)
  have 4: "(''J1'', [?d]) \<in> set [(''J1'', [?d])]" and 5: "?d \<in> set [?d]"
    by simp_all
  have 6: "masters ?s ''J1'' = Some (drilling_master 5)"
    by (simp add: drilling_store_def)
  have 7: "find_job_op (operationNameMap (operations ?s) (master_ops (drilling_master 5)))
             (master_ops (drilling_master 5)) ?d = Some 0"
    by (simp add: eval_defs)
  have 8: "0 \<le> totalOpsQty (master_ops (drilling_master 5) ! 0)"
    by (simp add: drilling_master_def)
  from pending_within_bounds_after_edit [OF 1 2 3 4 5 6 7 8] show ?thesis .
qed

subsection \<open>Insufficient pending quantity\<close>

lemma edit_rejected_unchanged:
  "fst (editBillQuantities now s bn cid chs) = Rejected e \<Longrightarrow>
   snd (editBillQuantities now s bn cid chs) = s"
  by (auto simp add: editBillQuantities_def Let_def split: option.splits sum.splits if_splits prod.splits)

lemma apply_delta_insufficient:
  assumes "find_job_op nmap jops d = Some k"
  shows "apply_delta now nmap d (jops, adjs) = Inl InsufficientPendingQuantity
           \<longleftrightarrow> pendingOpsQty (jops ! k) - deltaQty d < - (1 / 1000000)"
  using assms by (simp add: apply_delta_def Let_def)

lemma apply_delta_sufficient:
  assumes "find_job_op nmap jops d = Some k"
    and "\<not> pendingOpsQty (jops ! k) - deltaQty d < - (1 / 1000000)"
  shows "apply_delta now nmap d (jops, adjs) =
           Inr (jops[k := (jops ! k)\<lparr>pendingOpsQty :=
                   max 0 (min (totalOpsQty (jops ! k)) (pendingOpsQty (jops ! k) - deltaQty d)),
                 lastUpdatedDate := now\<rparr>],
                adjs @ [\<lparr>a_opsName = trim (d_opsName d),
                         a_valuePerBook = valuePerBook (jops ! k),
                         a_deltaQty = deltaQty d\<rparr>])"
  using assms by (simp add: apply_delta_def Let_def)

lemma edit_reaches_insufficient:
  assumes "trim c \<noteq> []" and "changes \<noteq> []" and "bills s bn = Some b"
    and "paymentStatus b \<noteq> ''Yes''"
    and "apply_changes (billOpsMap (jobs b)) changes (jobs b, [])
           = Inr (js, pre @ (jn, ds1 @ d # ds2) # post)"
    and "process_jobs now c pre s = Inr s1" and "masters s1 jn = Some m"
    and "apply_deltas now (operationNameMap (operations s1) (master_ops m)) ds1 (master_ops m, [])
           = Inr (jops, adjs)"
    and "find_job_op (operationNameMap (operations s1) (master_ops m)) jops d = Some k"
    and "pendingOpsQty (jops ! k) - deltaQty d < - (1 / 1000000)"
  shows "editBillQuantities now s bn (Some c) (Some changes)
           = (Rejected InsufficientPendingQuantity, s)"
proof -
  let ?nmap = "operationNameMap (operations s1) (master_ops m)"
  have "apply_delta now ?nmap d (jops, adjs) = Inl InsufficientPendingQuantity"
    using apply_delta_insufficient [OF assms(9)] assms(10) by simp
  then have "apply_deltas now ?nmap (ds1 @ d # ds2) (master_ops m, []) = Inl InsufficientPendingQuantity"
    by (simp add: apply_deltas_append assms(8))
  then have "process_job now c s1 (jn, ds1 @ d # ds2) = Inl InsufficientPendingQuantity"
    by (simp add: process_job_def assms(7))
  then have "process_jobs now c (pre @ (jn, ds1 @ d # ds2) # post) s = Inl InsufficientPendingQuantity"
    by (simp add: process_jobs_append assms(6))
  then show ?thesis
    using assms(1-5) by (simp add: editBillQuantities_def)
qed

lemma apply_deltas_untouched:
  assumes "apply_deltas now nmap ds (jops, adjs) = Inr (jops', adjs')"
    and "\<forall>d \<in> set ds. find_job_op nmap jops d \<noteq> Some k"
  shows "jops' ! k = jops ! k"
  using assms
proof (induction ds arbitrary: jops adjs)
  case Nil
  then show ?case by simp
next
  case (Cons d ds)
  from Cons.prems(1) obtain jops1 adjs1 where
    1: "apply_delta now nmap d (jops, adjs) = Inr (jops1, adjs1)" and
    2: "apply_deltas now nmap ds (jops1, adjs1) = Inr (jops', adjs')"
    by (auto split: sum.splits)
  note keys = apply_delta_keys [OF 1]
  from apply_delta_Inr [OF 1] obtain k' where k': "find_job_op nmap jops d = Some k'"
    and j: "jops1 = jops[k' := (jops ! k')\<lparr>pendingOpsQty :=
                        max 0 (min (totalOpsQty (jops ! k')) (pendingOpsQty (jops ! k') - deltaQty d)),
                      lastUpdatedDate := now\<rparr>]"
    by blast
  from k' Cons.prems(2) have "k' \<noteq> k"
    by auto
  then have s: "jops1 ! k = jops ! k"
    by (simp add: j)
  have "\<forall>d \<in> set ds. find_job_op nmap jops1 d \<noteq> Some k"
    using Cons.prems(2) find_job_op_keys [OF keys, of nmap] by simp
  from Cons.IH [OF 2 this] s show ?case
    by simp
qed

lemma edit_stores_clamped:
  assumes "editBillQuantities now s bn (Some c) (Some changes) = (BillJson b', s')"
    and "bills s bn = Some b"
    and "apply_changes (billOpsMap (jobs b)) changes (jobs b, [])
           = Inr (js, pre @ (jn, ds1 @ d # ds2) # post)"
    and "process_jobs now c pre s = Inr s1" and "masters s1 jn = Some m"
    and "apply_deltas now (operationNameMap (operations s1) (master_ops m)) ds1 (master_ops m, [])
           = Inr (jops, adjs)"
    and "find_job_op (operationNameMap (operations s1) (master_ops m)) jops d = Some k"
    and "\<forall>d' \<in> set ds2. find_job_op (operationNameMap (operations s1) (master_ops m)) jops d' \<noteq> Some k"
  shows "\<exists>m'. masters s' jn = Some m' \<and>
           pendingOpsQty (master_ops m' ! k)
             = max 0 (min (totalOpsQty (jops ! k)) (pendingOpsQty (jops ! k) - deltaQty d)) \<and>
           lastUpdatedDate (master_ops m' ! k) = now"
proof -
  let ?nmap = "operationNameMap (operations s1) (master_ops m)"
  let ?dbj = "pre @ (jn, ds1 @ d # ds2) # post"
  from edit_success [OF assms(1)] assms(2,3) obtain sF where
    p: "process_jobs now c ?dbj s = Inr sF" and
    s': "s' = sF\<lparr>bills := (bills sF)(bn \<mapsto> b')\<rparr>"
    by (auto split: if_splits)
  have dist: "distinct (map fst ?dbj)"
    using apply_changes_distinct [OF assms(3)] by simp
  then have n: "jn \<notin> fst ` set post"
    by auto
  from p assms(4) obtain s2 where
    j: "process_job now c s1 (jn, ds1 @ d # ds2) = Inr s2" and
    r: "process_jobs now c post s2 = Inr sF"
    by (auto simp add: process_jobs_append split: sum.splits)
  from process_job_Inr [OF j] assms(5) obtain jopsF adjsF where
    a: "apply_deltas now ?nmap (ds1 @ d # ds2) (master_ops m, []) = Inr (jopsF, adjsF)" and
    m2: "masters s2 = (masters s1)(jn \<mapsto> m\<lparr>master_ops := jopsF\<rparr>)"
    by auto
  from process_jobs_frame [OF r] n have mF: "masters sF jn = masters s2 jn"
    by blast
  from a assms(6) obtain jops2 adjs2 where
    st: "apply_delta now ?nmap d (jops, adjs) = Inr (jops2, adjs2)" and
    re: "apply_deltas now ?nmap ds2 (jops2, adjs2) = Inr (jopsF, adjsF)"
    by (auto simp add: apply_deltas_append split: sum.splits)
  from apply_delta_Inr [OF st] assms(7) have
    j2: "jops2 = jops[k := (jops ! k)\<lparr>pendingOpsQty :=
                        max 0 (min (totalOpsQty (jops ! k)) (pendingOpsQty (jops ! k) - deltaQty d)),
                      lastUpdatedDate := now\<rparr>]"
    by auto
  have "\<forall>d' \<in> set ds2. find_job_op ?nmap jops2 d' \<noteq> Some k"
    using assms(8) find_job_op_keys [OF apply_delta_keys [OF st], of ?nmap] by simp
  from apply_deltas_untouched [OF re this] have "jopsF ! k = jops2 ! k" .
  then have "pendingOpsQty (jopsF ! k)
               = max 0 (min (totalOpsQty (jops ! k)) (pendingOpsQty (jops ! k) - deltaQty d))"
    and "lastUpdatedDate (jopsF ! k) = now"
    using find_job_op_Some [OF assms(7)] by (simp_all add: j2)
  then show ?thesis
    using mF m2 by (simp add: s')
qed

text \<open>
  Claim C3: for a delta \<open>d\<close> applied to the master operation matched to it (position \<open>k\<close>),
  the step is rejected with InsufficientPendingQuantity if and only if
  \<open>newPending = pendingOpsQty - deltaQty\<close> is below \<open>-1e-6\<close>; otherwise \<open>newPending\<close>, clamped
  as \<open>max 0 (min totalOpsQty newPending)\<close>, is stored with \<open>lastUpdatedDate = now\<close>. When the
  handler reaches such a delta (after the jobs \<open>pre\<close> and the deltas \<open>ds1\<close> of job \<open>jn\<close>) with
  \<open>newPending\<close> below \<open>-1e-6\<close>, the request is rejected with that error and the store (bill,
  masters, ledger) is the one before the call; and whenever the request is rejected with
  that error, the store is unchanged. When the request succeeds, the master of job \<open>jn\<close> in
  the store after the call holds, for the operation at \<open>k\<close>, the clamped \<open>newPending\<close> of the
  delta \<open>d\<close> and the time of the call, provided no later delta of the job (\<open>ds2\<close>) is matched
  to the same operation and replaces them.
\<close>

theorem insufficient_pending_rejected:
  assumes "find_job_op nmap jops d = Some k"
  shows "(apply_delta now nmap d (jops, adjs) = Inl InsufficientPendingQuantity
            \<longleftrightarrow> pendingOpsQty (jops ! k) - deltaQty d < - (1 / 1000000)) \<and>
         (\<not> pendingOpsQty (jops ! k) - deltaQty d < - (1 / 1000000) \<longrightarrow>
            apply_delta now nmap d (jops, adjs) =
              Inr (jops[k := (jops ! k)\<lparr>pendingOpsQty :=
                      max 0 (min (totalOpsQty (jops ! k)) (pendingOpsQty (jops ! k) - deltaQty d)),
                    lastUpdatedDate := now\<rparr>],
                   adjs @ [\<lparr>a_opsName = trim (d_opsName d),
                            a_valuePerBook = valuePerBook (jops ! k),
                            a_deltaQty = deltaQty d\<rparr>])) \<and>
         (trim c \<noteq> [] \<and> changes \<noteq> [] \<and> bills s bn = Some b \<and> paymentStatus b \<noteq> ''Yes'' \<and>
          apply_changes (billOpsMap (jobs b)) changes (jobs b, [])
            = Inr (js, pre @ (jn, ds1 @ d # ds2) # post) \<and>
          process_jobs now c pre s = Inr s1 \<and> masters s1 jn = Some m \<and>
          nmap = operationNameMap (operations s1) (master_ops m) \<and>
          apply_deltas now nmap ds1 (master_ops m, []) = Inr (jops, adjs) \<and>
          pendingOpsQty (jops ! k) - deltaQty d < - (1 / 1000000) \<longrightarrow>
            editBillQuantities now s bn (Some c) (Some changes)
              = (Rejected InsufficientPendingQuantity, s)) \<and>
         (fst (editBillQuantities now s bn cid chs) = Rejected InsufficientPendingQuantity \<longrightarrow>
            snd (editBillQuantities now s bn cid chs) = s) \<and>
         (editBillQuantities now s bn (Some c) (Some changes) = (BillJson b', s') \<and>
          bills s bn = Some b \<and>
          apply_changes (billOpsMap (jobs b)) changes (jobs b, [])
            = Inr (js, pre @ (jn, ds1 @ d # ds2) # post) \<and>
          process_jobs now c pre s = Inr s1 \<and> masters s1 jn = Some m \<and>
          nmap = operationNameMap (operations s1) (master_ops m) \<and>
          apply_deltas now nmap ds1 (master_ops m, []) = Inr (jops, adjs) \<and>
          (\<forall>d' \<in> set ds2. find_job_op nmap jops d' \<noteq> Some k) \<longrightarrow>
            (\<exists>m'. masters s' jn = Some m' \<and>
               pendingOpsQty (master_ops m' ! k)
                 = max 0 (min (totalOpsQty (jops ! k)) (pendingOpsQty (jops ! k) - deltaQty d)) \<and>
               lastUpdatedDate (master_ops m' ! k) = now))"
  using apply_delta_insufficient [OF assms] apply_delta_sufficient [OF assms]
    edit_reaches_insufficient [of c changes s bn b js pre jn ds1 d ds2 post now s1 m jops adjs k]
    edit_rejected_unchanged [of now s bn cid chs InsufficientPendingQuantity]
    edit_stores_clamped [of now s bn c changes b' s' b js pre jn ds1 d ds2 post s1 m jops adjs k]
    assms
  by blast

theorem insufficient_pending_rejected_witness:
  "find_job_op (operationNameMap (operations (drilling_store ''No'' 1)) (master_ops (drilling_master 1)))
     (master_ops (drilling_master 1)) \<lparr>d_opsName = ''Drilling'', d_rate = 10, deltaQty = 5\<rparr> = Some 0 \<and>
   pendingOpsQty (master_ops (drilling_master 1) ! 0) - 5 < - (1 / 1000000) \<and>
   apply_delta 7 (operationNameMap (operations (drilling_store ''No'' 1)) (master_ops (drilling_master 1)))
     \<lparr>d_opsName = ''Drilling'', d_rate = 10, deltaQty = 5\<rparr> (master_ops (drilling_master 1), [])
     = Inl InsufficientPendingQuantity \<and>
   editBillQuantities 7 (drilling_store ''No'' 1) ''00000001'' (Some ''c1'') (Some [drilling_change 10])
     = (Rejected InsufficientPendingQuantity, drilling_store ''No'' 1) \<and>
   fst (editBillQuantities 7 (drilling_store ''No'' 5) ''00000001'' (Some ''c1'') (Some [drilling_change 8]))
     = BillJson ((drilling_bill ''No'')\<lparr>jobs := [\<lparr>jobNumber = ''J1'', clientName = ''Client'',
         jobTitle = ''Title'', ops = [\<lparr>opsName = ''Drilling'', qtyBook = 10, rate = 10,
         qtyCompleted = 8, totalValue = 80\<rparr>]\<rparr>]\<rparr>) \<and>
   (\<exists>m'. masters (snd (editBillQuantities 7 (drilling_store ''No'' 5) ''00000001'' (Some ''c1'')
                          (Some [drilling_change 8]))) ''J1'' = Some m' \<and>
         pendingOpsQty (master_ops m' ! 0) = 2 \<and> lastUpdatedDate (master_ops m' ! 0) = 7)"
proof -
  let ?s = "drilling_store ''No'' 1"
  let ?m = "drilling_master 1"
  let ?d = "\<lparr>d_opsName = ''Drilling'', d_rate = 10, deltaQty = 5\<rparr>"
  let ?nmap = "operationNameMap (operations ?s) (master_ops ?m)"
  have k: "find_job_op ?nmap (master_ops ?m) ?d = Some 0"
    by (simp add: eval_defs)
  have p: "pendingOpsQty (master_ops ?m ! 0) - deltaQty ?d < - (1 / 1000000)"
    by (simp add: drilling_master_def)
  have c: "trim ''c1'' \<noteq> []"
    by (simp add: trim_def is_space_def)
  have b: "bills ?s ''00000001'' = Some (drilling_bill ''No'')"
    by (simp add: drilling_store_def)
  have u: "paymentStatus (drilling_bill ''No'') \<noteq> ''Yes''"
    by (simp add: drilling_bill_def)
  have a: "apply_changes (billOpsMap (jobs (drilling_bill ''No''))) [drilling_change 10]
             (jobs (drilling_bill ''No''), [])
           = Inr ([\<lparr>jobNumber = ''J1'', clientName = ''Client'', jobTitle = ''Title'',
                    ops = [\<lparr>opsName = ''Drilling'', qtyBook = 10, rate = 10, qtyCompleted = 10,
                            totalValue = 100\<rparr>]\<rparr>], [] @ (''J1'', [] @ ?d # []) # [])"
    by (simp add: eval_defs)
  have m: "masters ?s ''J1'' = Some ?m"
    by (simp add: drilling_store_def)
  note t = insufficient_pending_rejected [OF k, where now = 7 and adjs = "[]" and c = "''c1''"
      and changes = "[drilling_change 10]" and s = ?s and bn = "''00000001''"
      and b = "drilling_bill ''No''" and pre = "[]" and jn = "''J1''" and ?ds1.0 = "[]" and ?ds2.0 = "[]"
      and post = "[]" and ?s1.0 = ?s and m = ?m]
  from t p have 1: "apply_delta 7 ?nmap ?d (master_ops ?m, []) = Inl InsufficientPendingQuantity"
    by blast
  from t c b u a m p
  have 2: "editBillQuantities 7 ?s ''00000001'' (Some ''c1'') (Some [drilling_change 10])
          = (Rejected InsufficientPendingQuantity, ?s)"
    by simp
  let ?s5 = "drilling_store ''No'' 5"
  let ?m5 = "drilling_master 5"
  let ?d3 = "\<lparr>d_opsName = ''Drilling'', d_rate = 10, deltaQty = 3\<rparr>"
  let ?nmap5 = "operationNameMap (operations ?s5) (master_ops ?m5)"
  let ?r = "editBillQuantities 7 ?s5 ''00000001'' (Some ''c1'') (Some [drilling_change 8])"
  let ?b' = "(drilling_bill ''No'')\<lparr>jobs := [\<lparr>jobNumber = ''J1'', clientName = ''Client'',
         jobTitle = ''Title'', ops = [\<lparr>opsName = ''Drilling'', qtyBook = 10, rate = 10,
         qtyCompleted = 8, totalValue = 80\<rparr>]\<rparr>]\<rparr>"
  have k5: "find_job_op ?nmap5 (master_ops ?m5) ?d3 = Some 0"
    by (simp add: eval_defs)
  have f: "fst ?r = BillJson ?b'"
    by (simp add: eval_defs)
  then have e: "?r = (BillJson ?b', snd ?r)"
    by (metis prod.collapse)
  have b5: "bills ?s5 ''00000001'' = Some (drilling_bill ''No'')"
    by (simp add: drilling_store_def)
  have a5: "apply_changes (billOpsMap (jobs (drilling_bill ''No''))) [drilling_change 8]
             (jobs (drilling_bill ''No''), [])
           = Inr ([\<lparr>jobNumber = ''J1'', clientName = ''Client'', jobTitle = ''Title'',
                    ops = [\<lparr>opsName = ''Drilling'', qtyBook = 10, rate = 10, qtyCompleted = 8,
                            totalValue = 80\<rparr>]\<rparr>], [] @ (''J1'', [] @ ?d3 # []) # [])"
    by (simp add: eval_defs)
  have m5: "masters ?s5 ''J1'' = Some ?m5"
    by (simp add: drilling_store_def)
  have v: "max 0 (min (totalOpsQty (master_ops ?m5 ! 0))
             (pendingOpsQty (master_ops ?m5 ! 0) - deltaQty ?d3)) = 2"
    by (simp add: drilling_master_def)
  note t5 = insufficient_pending_rejected [OF k5, where now = 7 and adjs = "[]" and c = "''c1''"
      and changes = "[drilling_change 8]" and s = ?s5 and bn = "''00000001''"
      and b = "drilling_bill ''No''" and pre = "[]" and jn = "''J1''" and ?ds1.0 = "[]" and ?ds2.0 = "[]"
      and post = "[]" and ?s1.0 = ?s5 and m = ?m5 and b' = ?b' and s' = "snd ?r"]
  from t5 e b5 a5 m5
  have "\<exists>m'. masters (snd ?r) ''J1'' = Some m' \<and>
          pendingOpsQty (master_ops m' ! 0)
            = max 0 (min (totalOpsQty (master_ops ?m5 ! 0))
                (pendingOpsQty (master_ops ?m5 ! 0) - deltaQty ?d3)) \<and>
          lastUpdatedDate (master_ops m' ! 0) = 7"
    by simp
  then have 3: "\<exists>m'. masters (snd ?r) ''J1'' = Some m' \<and>
          pendingOpsQty (master_ops m' ! 0) = 2 \<and> lastUpdatedDate (master_ops m' ! 0) = 7"
    unfolding v .
  from k p 1 2 f 3 show ?thesis
    by simp
qed

subsection \<open>The clean-up of the bill\<close>

lemma prune_jobs_lines:
  "concat (map ops (prune_jobs js)) = filter (\<lambda>bop. 0 < qtyCompleted bop) (concat (map ops js))"
  by (induction js) (simp_all add: prune_jobs_def)

lemma prune_jobs_clean:
  "job \<in> set (prune_jobs js) \<Longrightarrow> ops job \<noteq> [] \<and> (\<forall>bop \<in> set (ops job). 0 < qtyCompleted bop)"
  by (auto simp add: prune_jobs_def)

text \<open>
  Claim C9: after a successful edit that applied at least one non-zero delta, the saved
  bill (which is also the answer) has no job without lines and no line whose
  \<open>qtyCompleted\<close> is 0: its lines are, in order, exactly the lines of the edited bill with a
  positive \<open>qtyCompleted\<close>.
\<close>

theorem bill_pruned_after_edit:
  assumes "editBillQuantities now s bn cid (Some changes) = (BillJson b', s')"
    and "bills s bn = Some b"
    and "apply_changes (billOpsMap (jobs b)) changes (jobs b, []) = Inr (js, deltasByJob)"
    and "deltasByJob \<noteq> []"
  shows "bills s' bn = Some b' \<and>
         (\<forall>job \<in> set (jobs b'). ops job \<noteq> [] \<and> (\<forall>bop \<in> set (ops job). qtyCompleted bop \<noteq> 0)) \<and>
         concat (map ops (jobs b')) = filter (\<lambda>bop. 0 < qtyCompleted bop) (concat (map ops js))"
proof -
  from edit_success [OF assms(1)] assms(2,3,4) obtain s1 where
    b': "b' = b\<lparr>jobs := prune_jobs js\<rparr>" and s': "s' = s1\<lparr>bills := (bills s1)(bn \<mapsto> b')\<rparr>"
    by (auto split: if_splits)
  have "jobs b' = prune_jobs js"
    by (simp add: b')
  moreover have "\<forall>job \<in> set (prune_jobs js).
      ops job \<noteq> [] \<and> (\<forall>bop \<in> set (ops job). qtyCompleted bop \<noteq> 0)"
    using prune_jobs_clean [of _ js] by fastforce
  ultimately show ?thesis
    by (simp add: s' prune_jobs_lines)
qed

theorem bill_pruned_after_edit_witness:
  "bills (snd (editBillQuantities 7 (drilling_store ''No'' 5) ''00000001'' (Some ''c1'')
                (Some [drilling_change 0]))) ''00000001''
     = Some ((drilling_bill ''No'')\<lparr>jobs := []\<rparr>) \<and>
   fst (editBillQuantities 7 (drilling_store ''No'' 5) ''00000001'' (Some ''c1'')
          (Some [drilling_change 0])) = BillJson ((drilling_bill ''No'')\<lparr>jobs := []\<rparr>)"
proof -
  let ?s = "drilling_store ''No'' 5"
  let ?r = "editBillQuantities 7 ?s ''00000001'' (Some ''c1'') (Some [drilling_change 0])"
  let ?d = "\<lparr>d_opsName = ''Drilling'', d_rate = 10, deltaQty = - 5\<rparr>"
  have 1: "?r = (BillJson ((drilling_bill ''No'')\<lparr>jobs := []\<rparr>), snd ?r)"
    by (simp add: eval_defs)
  have 2: "bills ?s ''00000001'' = Some (drilling_bill ''No'')"
    by (simp add: drilling_store_def)
  have 3: "apply_changes (billOpsMap (jobs (drilling_bill ''No''))) [drilling_change 0]
             (jobs (drilling_bill ''No''), [])
           = Inr ([\<lparr>jobNumber = ''J1'', clientName = ''Client'', jobTitle = ''Title'',
                    ops = [\<lparr>opsName = ''Drilling'', qtyBook = 10, rate = 10, qtyCompleted = 0,
                            totalValue = 0\<rparr>]\<rparr>], [(''J1'', [?d])])"
    by (simp add: eval_defs)
  have 4: "[(''J1'', [?d])] \<noteq> []"
    by simp
  have "fst ?r = BillJson ((drilling_bill ''No'')\<lparr>jobs := []\<rparr>)"
    by (subst 1) simp
  with bill_pruned_after_edit [OF 1 2 3 4] show ?thesis
    by simp
qed

subsection \<open>Restating the current quantities\<close>

lemma apply_change_restated:
  assumes "restates_quantity js c"
  shows "apply_change (billOpsMap js) c (js, dbj) = Inr (js, dbj)"
proof -
  from assms obtain jn nm q j i where
    "ch_jobNumber c = Some jn" "ch_opsName c = Some nm" "newQtyCompleted c = Some (Finite q)"
    "trim jn \<noteq> []" "trim nm \<noteq> []" "0 \<le> q"
    "billOpsMap js (buildKey jn nm (number_or_zero (ch_rate c))) = Some (j, i)"
    "qtyCompleted (ops (js ! j) ! i) = q"
    by (auto simp add: restates_quantity_def split: option.splits jsnum.splits)
  then show ?thesis
    by (simp add: apply_change_def Let_def)
qed

lemma apply_changes_restated:
  "\<forall>c \<in> set cs. restates_quantity js c \<Longrightarrow>
   apply_changes (billOpsMap js) cs (js, dbj) = Inr (js, dbj)"
  by (induction cs) (simp_all add: apply_change_restated)

text \<open>
  Claim C7: when every change of a (non-empty) change set asks for the quantity its line
  already has, the edit of an unpaid bill succeeds, answers with the bill as it is, and
  writes nothing: the store after the call is the store before it.
\<close>

theorem restated_quantities_noop:
  assumes "trim c \<noteq> []" and "changes \<noteq> []"
    and "bills s bn = Some b" and "paymentStatus b \<noteq> ''Yes''"
    and "\<forall>ch \<in> set changes. restates_quantity (jobs b) ch"
  shows "editBillQuantities now s bn (Some c) (Some changes) = (BillJson b, s)"
  using assms(1-4) apply_changes_restated [OF assms(5), of "[]"]
  by (simp add: editBillQuantities_def)

theorem restated_quantities_noop_witness:
  "trim ''c1'' \<noteq> [] \<and> restates_quantity (jobs (drilling_bill ''No'')) (drilling_change 5) \<and>
   editBillQuantities 7 (drilling_store ''No'' 5) ''00000001'' (Some ''c1'')
       (Some [drilling_change 5, drilling_change 5])
     = (BillJson (drilling_bill ''No''), drilling_store ''No'' 5)"
proof -
  have c: "trim ''c1'' \<noteq> []"
    by (simp add: trim_def is_space_def)
  have n: "[drilling_change 5, drilling_change 5] \<noteq> []"
    by simp
  have b: "bills (drilling_store ''No'' 5) ''00000001'' = Some (drilling_bill ''No'')"
    by (simp add: drilling_store_def)
  have u: "paymentStatus (drilling_bill ''No'') \<noteq> ''Yes''"
    by (simp add: drilling_bill_def)
  have r: "restates_quantity (jobs (drilling_bill ''No'')) (drilling_change 5)"
    by (simp add: restates_quantity_def eval_defs)
  then have a: "\<forall>ch \<in> set [drilling_change 5, drilling_change 5].
                  restates_quantity (jobs (drilling_bill ''No'')) ch"
    by simp
  from restated_quantities_noop [OF c n b u a, of 7] c r show ?thesis
    by simp
qed

subsection \<open>No empty document of completed work\<close>

lemma no_new_empty_refl: "no_new_empty s s"
  by (simp add: no_new_empty_def)

lemma no_new_empty_trans:
  "no_new_empty s s1 \<Longrightarrow> no_new_empty s1 s2 \<Longrightarrow> no_new_empty s s2"
  unfolding no_new_empty_def by blast

lemma no_new_empty_bills:
  "no_new_empty s s1 \<Longrightarrow> no_new_empty s (s1\<lparr>bills := x\<rparr>)"
  by (simp add: no_new_empty_def)

lemma process_job_ledgers:
  assumes "process_job now c s (jn, ds) = Inr s'"
  shows "no_new_empty s s'"
  using assms
  by (auto simp add: process_job_def Let_def no_new_empty_def
      split: option.splits sum.splits if_splits)

lemma process_jobs_ledgers:
  "process_jobs now c dbj s = Inr s' \<Longrightarrow> no_new_empty s s'"
proof (induction dbj arbitrary: s)
  case Nil
  then show ?case by (simp add: no_new_empty_refl)
next
  case (Cons jd dbj)
  obtain jn ds where jd: "jd = (jn, ds)" by (cases jd)
  from Cons.prems obtain s1 where
    1: "process_job now c s (jn, ds) = Inr s1" and
    2: "process_jobs now c dbj s1 = Inr s'"
    by (auto simp add: jd split: sum.splits)
  from no_new_empty_trans [OF process_job_ledgers [OF 1] Cons.IH [OF 2]] show ?case .
qed

lemma edit_ledgers:
  "no_new_empty s (snd (editBillQuantities now s bn cid chs))"
proof (cases "fst (editBillQuantities now s bn cid chs)")
  case (BillJson b')
  then have "editBillQuantities now s bn cid chs = (BillJson b', snd (editBillQuantities now s bn cid chs))"
    by (metis prod.collapse)
  from edit_success [OF this] show ?thesis
    by (auto simp add: no_new_empty_refl no_new_empty_bills dest!: process_jobs_ledgers split: if_splits)
next
  case Deleted
  then show ?thesis
    by (auto simp add: editBillQuantities_def Let_def split: option.splits sum.splits if_splits prod.splits)
next
  case (Rejected e)
  from edit_rejected_unchanged [OF this] show ?thesis
    by (simp add: no_new_empty_refl)
qed

lemma reverse_job_ledgers:
  "no_new_empty s (reverse_job now cid s job)"
  by (auto simp add: reverse_job_def Let_def no_new_empty_def split: option.splits)

lemma foldl_reverse_job_ledgers:
  "no_new_empty s (foldl (reverse_job now cid) s js)"
proof (induction js arbitrary: s)
  case Nil
  then show ?case by (simp add: no_new_empty_refl)
next
  case (Cons job js)
  from no_new_empty_trans [OF reverse_job_ledgers Cons.IH] show ?case
    by simp
qed

lemma delete_ledgers:
  "no_new_empty s (snd (deleteBill now s bn))"
  by (simp add: deleteBill_def Let_def no_new_empty_refl no_new_empty_bills foldl_reverse_job_ledgers
      split: option.splits)


lemma no_new_empty_key:
  assumes "no_new_empty s s'" and "\<forall>wd. ledgers s key = Some wd \<longrightarrow> opsDone wd \<noteq> []"
  shows "\<forall>wd. ledgers s' key = Some wd \<longrightarrow> opsDone wd \<noteq> []"
  using assms unfolding no_new_empty_def by blast

lemma process_job_ledger_touched:
  assumes "process_job now c s (jn, ds) = Inr s'"
  shows "\<forall>wd. ledgers s' (c, jn) = Some wd \<longrightarrow> opsDone wd \<noteq> []"
  using assms
  by (auto simp add: process_job_def Let_def split: option.splits sum.splits if_splits)

lemma process_jobs_ledger_touched:
  "process_jobs now c dbj s = Inr s' \<Longrightarrow> jn \<in> fst ` set dbj \<Longrightarrow>
   \<forall>wd. ledgers s' (c, jn) = Some wd \<longrightarrow> opsDone wd \<noteq> []"
proof (induction dbj arbitrary: s)
  case Nil
  then show ?case by simp
next
  case (Cons jd dbj)
  obtain jn1 ds1 where jd: "jd = (jn1, ds1)" by (cases jd)
  from Cons.prems(1) obtain s1 where
    1: "process_job now c s (jn1, ds1) = Inr s1" and
    2: "process_jobs now c dbj s1 = Inr s'"
    by (auto simp add: jd split: sum.splits)
  show ?case
  proof (cases "jn \<in> fst ` set dbj")
    case True
    from Cons.IH [OF 2 this] show ?thesis .
  next
    case False
    with Cons.prems(2) have "jn = jn1"
      by (simp add: jd)
    with process_job_ledger_touched [OF 1]
    have "\<forall>wd. ledgers s1 (c, jn) = Some wd \<longrightarrow> opsDone wd \<noteq> []"
      by simp
    from no_new_empty_key [OF process_jobs_ledgers [OF 2] this] show ?thesis .
  qed
qed

lemma reverse_job_ledger_touched:
  "\<forall>wd. ledgers (reverse_job now cid s job) (cid, jobNumber job) = Some wd \<longrightarrow> opsDone wd \<noteq> [] \<or> ledgers s (cid, jobNumber job) = None"
  by (auto simp add: reverse_job_def Let_def split: option.splits)

lemma reverse_job_ledger_none:
  "ledgers s key = None \<Longrightarrow> ledgers (reverse_job now cid s job) key = None"
  by (auto simp add: reverse_job_def Let_def split: option.splits)

lemma foldl_reverse_job_ledger_none:
  "ledgers s key = None \<Longrightarrow> ledgers (foldl (reverse_job now cid) s js) key = None"
  by (induction js arbitrary: s) (simp_all add: reverse_job_ledger_none)

lemma foldl_reverse_job_ledger_touched:
  "job \<in> set js \<Longrightarrow>
   \<forall>wd. ledgers (foldl (reverse_job now cid) s js) (cid, jobNumber job) = Some wd \<longrightarrow> opsDone wd \<noteq> []"
proof (induction js arbitrary: s)
  case Nil
  then show ?case by simp
next
  case (Cons j js)
  let ?s1 = "reverse_job now cid s j"
  show ?case
  proof (cases "job \<in> set js")
    case True
    from Cons.IH [OF this, of ?s1] show ?thesis
      by simp
  next
    case False
    with Cons.prems have j: "j = job"
      by simp
    have "\<forall>wd. ledgers ?s1 (cid, jobNumber job) = Some wd \<longrightarrow> opsDone wd \<noteq> []"
      using reverse_job_ledger_touched [of now cid s job] reverse_job_ledger_none [of s "(cid, jobNumber job)" now cid job]
      by (auto simp add: j)
    from no_new_empty_key [OF foldl_reverse_job_ledgers this] show ?thesis
      by simp
  qed
qed

text \<open>
  Claim C6: neither handler leaves a Contractor_WD document with an empty \<open>opsDone\<close>
  behind. After edit-qty and after the soft delete, every document in the store has at
  least one entry or is a document the call did not write; and the document of every
  job the call adjusted (the jobs of \<^verbatim>\<open>deltasByJob\<close> for the contractor of the edit, the jobs
  of the deleted bill for its contractor) has an entry whenever it exists: one whose entries
  are all gone has been deleted, and a new one without entries has not been saved.
\<close>

theorem no_empty_ledger_persisted:
  "(\<forall>key wd. ledgers (snd (editBillQuantities now s bn cid chs)) key = Some wd \<longrightarrow>
       opsDone wd \<noteq> [] \<or> ledgers s key = Some wd) \<and>
   (\<forall>key wd. ledgers (snd (deleteBill now s bn)) key = Some wd \<longrightarrow>
       opsDone wd \<noteq> [] \<or> ledgers s key = Some wd) \<and>
   (editBillQuantities now s bn (Some c) (Some changes) = (BillJson b', s') \<and>
    bills s bn = Some b \<and>
    apply_changes (billOpsMap (jobs b)) changes (jobs b, []) = Inr (js, deltasByJob) \<and>
    jn \<in> fst ` set deltasByJob \<and> ledgers s' (c, jn) = Some wd \<longrightarrow> opsDone wd \<noteq> []) \<and>
   (deleteBill now s bn = (Deleted, s') \<and> bills s bn = Some b \<and>
    contractors s (trim (contractorName b)) = Some c \<and>
    job \<in> set (jobs b) \<and> ledgers s' (c, jobNumber job) = Some wd \<longrightarrow> opsDone wd \<noteq> [])"
proof (intro conjI impI)
  show "\<forall>key wd. ledgers (snd (editBillQuantities now s bn cid chs)) key = Some wd \<longrightarrow>
       opsDone wd \<noteq> [] \<or> ledgers s key = Some wd"
    using edit_ledgers [of s now bn cid chs] unfolding no_new_empty_def by blast
  show "\<forall>key wd. ledgers (snd (deleteBill now s bn)) key = Some wd \<longrightarrow>
       opsDone wd \<noteq> [] \<or> ledgers s key = Some wd"
    using delete_ledgers [of s now bn] unfolding no_new_empty_def by blast
next
  assume a: "editBillQuantities now s bn (Some c) (Some changes) = (BillJson b', s') \<and>
    bills s bn = Some b \<and>
    apply_changes (billOpsMap (jobs b)) changes (jobs b, []) = Inr (js, deltasByJob) \<and>
    jn \<in> fst ` set deltasByJob \<and> ledgers s' (c, jn) = Some wd"
  then have e: "editBillQuantities now s bn (Some c) (Some changes) = (BillJson b', s')"
    by simp
  from edit_success [OF e] a obtain s1 where
    p: "process_jobs now c deltasByJob s = Inr s1" and
    s': "s' = s1\<lparr>bills := (bills s1)(bn \<mapsto> b')\<rparr>"
    by (auto split: if_splits)
  from process_jobs_ledger_touched [OF p, of jn] a show "opsDone wd \<noteq> []"
    by (simp add: s')
next
  assume a: "deleteBill now s bn = (Deleted, s') \<and> bills s bn = Some b \<and>
    contractors s (trim (contractorName b)) = Some c \<and>
    job \<in> set (jobs b) \<and> ledgers s' (c, jobNumber job) = Some wd"
  then have "s' = (foldl (reverse_job now c) s (jobs b))\<lparr>bills :=
      (bills (foldl (reverse_job now c) s (jobs b)))(bn \<mapsto> b\<lparr>isDeleted := True\<rparr>)\<rparr>"
    by (auto simp add: deleteBill_def Let_def split: if_splits)
  with a foldl_reverse_job_ledger_touched [of job "jobs b" now c s] show "opsDone wd \<noteq> []"
    by simp
qed

theorem no_empty_ledger_persisted_witness:
  "ledgers (snd (editBillQuantities 7 (billed_store 5 None 3) ''00000001'' (Some ''c1'')
                   (Some [drilling_change 8]))) (''c1'', ''J1'')
     = Some ((drilling_ledger None 6)\<lparr>opsDone :=
         [\<lparr>opsId = None, wd_opsName = ''Drilling'', wd_valuePerBook = 10, opsDoneQty = 6,
           completionDate = 7\<rparr>]\<rparr>) \<and>
   opsDone ((drilling_ledger None 6)\<lparr>opsDone :=
         [\<lparr>opsId = None, wd_opsName = ''Drilling'', wd_valuePerBook = 10, opsDoneQty = 6,
           completionDate = 7\<rparr>]\<rparr>) \<noteq> [] \<and>
   ledgers (snd (editBillQuantities 7 (billed_store 5 None 3) ''00000001'' (Some ''c1'')
                   (Some [drilling_change 0]))) (''c1'', ''J1'') = None \<and>
   ledgers (snd (deleteBill 9 (billed_store 5 (Some ''65a1b2c3d4e5f60718293a4b'') 5) ''00000001'')) (''c1'', ''J1'') = None \<and>
   ledgers (snd (deleteBill 9 (billed_store 5 (Some ''65a1b2c3d4e5f60718293a4b'') 7) ''00000001'')) (''c1'', ''J1'')
     = Some ((drilling_ledger (Some ''65a1b2c3d4e5f60718293a4b'') 2)) \<and>
   opsDone (drilling_ledger (Some ''65a1b2c3d4e5f60718293a4b'') 2) \<noteq> []"
proof -
  let ?s = "billed_store 5 None 3"
  let ?r = "editBillQuantities 7 ?s ''00000001'' (Some ''c1'') (Some [drilling_change 8])"
  let ?wd = "(drilling_ledger None 6)\<lparr>opsDone :=
         [\<lparr>opsId = None, wd_opsName = ''Drilling'', wd_valuePerBook = 10, opsDoneQty = 6,
           completionDate = 7\<rparr>]\<rparr>"
  let ?d = "\<lparr>d_opsName = ''Drilling'', d_rate = 10, deltaQty = 3\<rparr>"
  let ?t = "billed_store 5 (Some ''65a1b2c3d4e5f60718293a4b'') 7"
  let ?q = "deleteBill 9 ?t ''00000001''"
  have 1: "ledgers (snd ?r) (''c1'', ''J1'') = Some ?wd"
    by (simp add: eval_defs eval_delete_defs)
  have 2: "ledgers ?s (''c1'', ''J1'') \<noteq> Some ?wd"
    by (simp add: eval_delete_defs)
  have 3: "ledgers (snd (editBillQuantities 7 ?s ''00000001'' (Some ''c1'')
                   (Some [drilling_change 0]))) (''c1'', ''J1'') = None"
    by (simp add: eval_defs eval_delete_defs)
  have 4: "ledgers (snd (deleteBill 9 (billed_store 5 (Some ''65a1b2c3d4e5f60718293a4b'') 5) ''00000001'')) (''c1'', ''J1'') = None"
    by (simp add: eval_defs eval_delete_defs)
  have e: "?r = (BillJson (the (bills (snd ?r) ''00000001'')), snd ?r)"
    by (simp add: eval_defs eval_delete_defs)
  have b: "bills ?s ''00000001'' = Some (drilling_bill ''No'')"
    by (simp add: eval_defs eval_delete_defs)
  have a: "apply_changes (billOpsMap (jobs (drilling_bill ''No''))) [drilling_change 8]
             (jobs (drilling_bill ''No''), [])
           = Inr ([\<lparr>jobNumber = ''J1'', clientName = ''Client'', jobTitle = ''Title'',
                    ops = [\<lparr>opsName = ''Drilling'', qtyBook = 10, rate = 10, qtyCompleted = 8,
                            totalValue = 80\<rparr>]\<rparr>], [(''J1'', [?d])])"
    by (simp add: eval_defs)
  have j: "''J1'' \<in> fst ` set [(''J1'', [?d])]"
    by simp
  have d: "?q = (Deleted, snd ?q)"
    by (simp add: eval_defs eval_delete_defs)
  have bt: "bills ?t ''00000001'' = Some (drilling_bill ''No'')"
    by (simp add: eval_defs eval_delete_defs)
  have c: "contractors ?t (trim (contractorName (drilling_bill ''No''))) = Some ''c1''"
    by (simp add: eval_defs eval_delete_defs)
  have jb: "hd (jobs (drilling_bill ''No'')) \<in> set (jobs (drilling_bill ''No''))"
    by (simp add: drilling_bill_def)
  have jn: "jobNumber (hd (jobs (drilling_bill ''No''))) = ''J1''"
    by (simp add: drilling_bill_def)
  have 5: "ledgers (snd ?q) (''c1'', ''J1'') = Some (drilling_ledger (Some ''65a1b2c3d4e5f60718293a4b'') 2)"
    by (simp add: eval_defs eval_delete_defs)
  from no_empty_ledger_persisted [where now = 7 and s = ?s and bn = "''00000001''"
      and cid = "Some ''c1''" and chs = "Some [drilling_change 8]"] 1 2
  have 6: "opsDone ?wd \<noteq> []"
    by blast
  from no_empty_ledger_persisted [where now = 7 and s = ?s and bn = "''00000001''"
      and c = "''c1''" and changes = "[drilling_change 8]"
      and b' = "the (bills (snd ?r) ''00000001'')" and s' = "snd ?r"
      and b = "drilling_bill ''No''" and deltasByJob = "[(''J1'', [?d])]"
      and jn = "''J1''" and wd = ?wd] e b a j 1
  have 7: "opsDone ?wd \<noteq> []"
    by blast
  from no_empty_ledger_persisted [where now = 9 and s = ?t and bn = "''00000001''"
      and s' = "snd ?q" and b = "drilling_bill ''No''" and c = "''c1''"
      and job = "hd (jobs (drilling_bill ''No''))"
      and wd = "drilling_ledger (Some ''65a1b2c3d4e5f60718293a4b'') 2"] d bt c jb jn 5
  have 8: "opsDone (drilling_ledger (Some ''65a1b2c3d4e5f60718293a4b'') 2) \<noteq> []"
    by simp
  from 1 6 7 3 4 5 8 show ?thesis
    by blast
qed

subsection \<open>The reversal on soft delete\<close>

lemma reverse_job_operations:
  "operations (reverse_job now cid s job) = operations s"
  by (simp add: reverse_job_def Let_def split: option.splits)

lemma foldl_reverse_job_operations:
  "operations (foldl (reverse_job now cid) s js) = operations s"
  by (induction js arbitrary: s) (simp_all add: reverse_job_operations)















subsection \<open>Entries created by edit-qty and the reversal\<close>

text \<open>
  Claim C2 asks that the reversal, which looks an entry of Contractor_WD up by \<open>opsId\<close>,
  finds the entry that edit-qty finds by name and rounded rate, in particular the entries
  that edit-qty created. It does not: edit-qty creates its entries with \<open>opsId: null\<close>, and
  \<^verbatim>\<open>String(null)\<close> is no id of the catalog. In \<open>edited_store\<close> the entry for Drilling (quantity
  3) is found by the matching of edit-qty and not by the matching of the reversal; the
  soft delete of the bill gives all 8 completed units back to the master (pending 2 to 10)
  and leaves the entry, with its quantity 3, in the contractor's document.
\<close>

theorem reversal_misses_edit_entries:
  "ledgers edited_store (''c1'', ''J1'') = Some edited_ledger \<and>
   findIndex (\<lambda>od. trim (wd_opsName od) = trim ''Drilling'' \<and> round2 (wd_valuePerBook od) = round2 10)
     (opsDone edited_ledger) = Some 0 \<and>
   findOperation (operations edited_store) ''Drilling'' = Some \<lparr>op_id = ''65a1b2c3d4e5f60718293a4b'', op_opsName = ''Drilling''\<rparr> \<and>
   findIndex (\<lambda>od. opsIdString (opsId od) = ''65a1b2c3d4e5f60718293a4b'') (opsDone edited_ledger) = None \<and>
   fst (deleteBill 9 edited_store ''00000001'') = Deleted \<and>
   ledgers (snd (deleteBill 9 edited_store ''00000001'')) (''c1'', ''J1'') = Some edited_ledger \<and>
   map_option (map pendingOpsQty \<circ> master_ops) (masters edited_store ''J1'') = Some [2] \<and>
   map_option (map pendingOpsQty \<circ> master_ops)
     (masters (snd (deleteBill 9 edited_store ''00000001'')) ''J1'') = Some [10]"
  by (simp add: edited_store_def edited_ledger_def eval_defs eval_delete_defs)

subsection \<open>Completed quantity of the bill against pending quantity of the master\<close>

lemma keys_pending_other:
  "k' \<noteq> k \<Longrightarrow> pendingOpsQty (jops[k' := x] ! k) = pendingOpsQty (jops ! k)"
  by simp

lemma apply_deltas_unclamped:
  assumes "apply_deltas now nmap ds (jops, adjs) = Inr (jops', adjs')" and "k < length jops"
    and "unclamped (pendingOpsQty (jops ! k)) (totalOpsQty (jops ! k))
           (map deltaQty (filter (\<lambda>d. find_job_op nmap jops d = Some k) ds))"
  shows "pendingOpsQty (jops' ! k) =
           pendingOpsQty (jops ! k)
             - sum_list (map deltaQty (filter (\<lambda>d. find_job_op nmap jops d = Some k) ds))"
  using assms
proof (induction ds arbitrary: jops adjs)
  case Nil
  then show ?case by simp
next
  case (Cons d ds)
  from Cons.prems(1) obtain jops1 adjs1 where
    1: "apply_delta now nmap d (jops, adjs) = Inr (jops1, adjs1)" and
    2: "apply_deltas now nmap ds (jops1, adjs1) = Inr (jops', adjs')"
    by (auto split: sum.splits)
  note keys = apply_delta_keys [OF 1]
  have len: "k < length jops1"
    using map_eq_imp_length_eq [OF keys] Cons.prems(2) by simp
  have tot: "totalOpsQty (jops1 ! k) = totalOpsQty (jops ! k)"
    by (rule keys_total [OF keys Cons.prems(2)])
  have same: "(\<lambda>d. find_job_op nmap jops1 d = Some k) = (\<lambda>d. find_job_op nmap jops d = Some k)"
    using find_job_op_keys [OF keys, of nmap] by simp
  from apply_delta_Inr [OF 1] obtain k' where k': "find_job_op nmap jops d = Some k'"
    and j: "jops1 = jops[k' := (jops ! k')\<lparr>pendingOpsQty :=
                        max 0 (min (totalOpsQty (jops ! k')) (pendingOpsQty (jops ! k') - deltaQty d)),
                      lastUpdatedDate := now\<rparr>]"
    by blast
  show ?case
  proof (cases "k' = k")
    case True
    with Cons.prems(3) k' have
      u: "0 \<le> pendingOpsQty (jops ! k) - deltaQty d"
         "pendingOpsQty (jops ! k) - deltaQty d \<le> totalOpsQty (jops ! k)"
         "unclamped (pendingOpsQty (jops ! k) - deltaQty d) (totalOpsQty (jops ! k))
            (map deltaQty (filter (\<lambda>d. find_job_op nmap jops d = Some k) ds))"
      by simp_all
    have p1: "pendingOpsQty (jops1 ! k) = pendingOpsQty (jops ! k) - deltaQty d"
      using True Cons.prems(2) u(1,2) by (simp add: j)
    from Cons.IH [OF 2 len] u(3) have
      "pendingOpsQty (jops' ! k) = pendingOpsQty (jops1 ! k)
         - sum_list (map deltaQty (filter (\<lambda>d. find_job_op nmap jops d = Some k) ds))"
      by (simp add: same p1 tot)
    then show ?thesis
      using True k' by (simp add: p1)
  next
    case False
    then have p1: "pendingOpsQty (jops1 ! k) = pendingOpsQty (jops ! k)"
      by (simp add: j)
    from False k' Cons.prems(3) have
      "unclamped (pendingOpsQty (jops ! k)) (totalOpsQty (jops ! k))
            (map deltaQty (filter (\<lambda>d. find_job_op nmap jops d = Some k) ds))"
      by simp
    with Cons.IH [OF 2 len] have
      "pendingOpsQty (jops' ! k) = pendingOpsQty (jops1 ! k)
         - sum_list (map deltaQty (filter (\<lambda>d. find_job_op nmap jops d = Some k) ds))"
      by (simp add: same p1 tot)
    then show ?thesis
      using False k' by (simp add: p1)
  qed
qed

lemma sum_list_map_update:
  fixes f :: "'a \<Rightarrow> real"
  shows "i < length xs \<Longrightarrow> sum_list (map f (xs[i := y])) = sum_list (map f xs) - f (xs ! i) + f y"
proof (induction xs arbitrary: i)
  case Nil
  then show ?case by simp
next
  case (Cons x xs)
  then show ?case
    by (cases i) simp_all
qed

lemma push_delta_qty:
  "deltas_qty Q jn (push_delta jn' d dbj) =
     deltas_qty Q jn dbj + (if jn' = jn then delta_qty Q d else 0)"
  by (induction jn' d dbj rule: push_delta.induct) (auto simp add: deltas_qty_def)

lemma bill_entries_range:
  assumes "(key, j, i) \<in> set (bill_entries js)"
  shows "j < length js \<and> i < length (ops (js ! j))"
  using assms
  by (auto simp add: bill_entries_def in_set_enumerate_eq)

lemma billOpsMap_range:
  assumes "billOpsMap js key = Some (j, i)"
  shows "j < length js \<and> i < length (ops (js ! j))"
proof -
  from assms have "(key, j, i) \<in> set (rev (bill_entries js))"
    unfolding billOpsMap_def by (rule map_of_SomeD)
  then show ?thesis
    using bill_entries_range [of key j i js] by simp
qed

lemma bill_shape_lengths:
  assumes "bill_shape js = bill_shape js0" and "j < length js0"
  shows "length js = length js0" and "length (ops (js ! j)) = length (ops (js0 ! j))"
proof -
  show l: "length js = length js0"
    using assms(1) unfolding bill_shape_def by (rule map_eq_imp_length_eq)
  have "bill_shape js ! j = bill_shape js0 ! j"
    by (simp add: assms(1))
  then have "map (\<lambda>bop. (opsName bop, rate bop)) (ops (js ! j))
               = map (\<lambda>bop. (opsName bop, rate bop)) (ops (js0 ! j))"
    using assms(2) l by (simp add: bill_shape_def)
  then show "length (ops (js ! j)) = length (ops (js0 ! j))"
    by (rule map_eq_imp_length_eq)
qed

lemma apply_change_cases:
  assumes "apply_change bmap c (js, dbj) = Inr (js', dbj')"
  shows "(js' = js \<and> dbj' = dbj) \<or>
         (\<exists>jn nm j i newQty. bmap (buildKey jn nm (number_or_zero (ch_rate c))) = Some (j, i) \<and>
            0 \<le> newQty \<and>
            js' = js[j := (js ! j)\<lparr>ops := (ops (js ! j))[i := (ops (js ! j) ! i)\<lparr>qtyCompleted := newQty,
                        totalValue := rate (ops (js ! j) ! i) * newQty\<rparr>]\<rparr>] \<and>
            dbj' = push_delta (jobNumber (js ! j))
                     \<lparr>d_opsName = trim (opsName (ops (js ! j) ! i)), d_rate = rate (ops (js ! j) ! i),
                      deltaQty = newQty - qtyCompleted (ops (js ! j) ! i)\<rparr> dbj)"
proof -
  from assms obtain jn nm nq j i where
    f: "ch_jobNumber c = Some jn" "trim jn \<noteq> []" "ch_opsName c = Some nm" "trim nm \<noteq> []"
       "newQtyCompleted c = Some nq"
       "bmap (buildKey jn nm (number_or_zero (ch_rate c))) = Some (j, i)"
    by (auto simp add: apply_change_def split: option.splits if_splits)
  with assms obtain newQty where n: "nq = Finite newQty" "0 \<le> newQty"
    by (auto simp add: apply_change_def Let_def split: jsnum.splits if_splits)
  show ?thesis
  proof (cases "newQty - qtyCompleted (ops (js ! j) ! i) = 0")
    case True
    with assms f n show ?thesis
      by (simp add: apply_change_def Let_def)
  next
    case False
    with assms f n have
      "js' = js[j := (js ! j)\<lparr>ops := (ops (js ! j))[i := (ops (js ! j) ! i)\<lparr>qtyCompleted := newQty,
                        totalValue := rate (ops (js ! j) ! i) * newQty\<rparr>]\<rparr>]"
      "dbj' = push_delta (jobNumber (js ! j))
                     \<lparr>d_opsName = trim (opsName (ops (js ! j) ! i)), d_rate = rate (ops (js ! j) ! i),
                      deltaQty = newQty - qtyCompleted (ops (js ! j) ! i)\<rparr> dbj"
      by (simp_all add: apply_change_def Let_def)
    with f(6) n(2) show ?thesis
      by blast
  qed
qed

lemma nonneg_lines_update:
  assumes "nonneg_lines js" and "0 \<le> q"
  shows "nonneg_lines (js[j := (js ! j)\<lparr>ops := (ops (js ! j))[i := (ops (js ! j) ! i)\<lparr>qtyCompleted := q,
                        totalValue := v\<rparr>]\<rparr>])"
proof (cases "j < length js")
  case True
  show ?thesis
    unfolding nonneg_lines_def
  proof (intro ballI)
    fix job bop
    assume job: "job \<in> set (js[j := (js ! j)\<lparr>ops := (ops (js ! j))[i := (ops (js ! j) ! i)\<lparr>qtyCompleted := q,
                        totalValue := v\<rparr>]\<rparr>])" and bop: "bop \<in> set (ops job)"
    from job have "job = (js ! j)\<lparr>ops := (ops (js ! j))[i := (ops (js ! j) ! i)\<lparr>qtyCompleted := q,
                        totalValue := v\<rparr>]\<rparr> \<or> job \<in> set js"
      using set_update_subset_insert [of js j] by blast
    then show "0 \<le> qtyCompleted bop"
    proof
      assume "job \<in> set js"
      with bop assms(1) show ?thesis
        by (simp add: nonneg_lines_def)
    next
      assume "job = (js ! j)\<lparr>ops := (ops (js ! j))[i := (ops (js ! j) ! i)\<lparr>qtyCompleted := q,
                        totalValue := v\<rparr>]\<rparr>"
      with bop have "bop = (ops (js ! j) ! i)\<lparr>qtyCompleted := q, totalValue := v\<rparr> \<or> bop \<in> set (ops (js ! j))"
        using set_update_subset_insert [of "ops (js ! j)" i] by auto
      then show ?thesis
        using assms True by (auto simp add: nonneg_lines_def)
    qed
  qed
next
  case False
  with assms(1) show ?thesis
    by (simp add: list_update_beyond)
qed

lemma apply_change_qty:
  assumes "apply_change bmap c (js, dbj) = Inr (js', dbj')"
    and "\<forall>key j i. bmap key = Some (j, i) \<longrightarrow> j < length js \<and> i < length (ops (js ! j))"
  shows "bill_shape js' = bill_shape js"
    and "bill_qty Q jn js' - bill_qty Q jn js = deltas_qty Q jn dbj' - deltas_qty Q jn dbj"
    and "nonneg_lines js \<Longrightarrow> nonneg_lines js'"
proof -
  from apply_change_cases [OF assms(1)]
  have "bill_shape js' = bill_shape js \<and>
        bill_qty Q jn js' - bill_qty Q jn js = deltas_qty Q jn dbj' - deltas_qty Q jn dbj \<and>
        (nonneg_lines js \<longrightarrow> nonneg_lines js')"
  proof
    assume "js' = js \<and> dbj' = dbj"
    then show ?thesis by simp
  next
    assume "\<exists>jn nm j i newQty. bmap (buildKey jn nm (number_or_zero (ch_rate c))) = Some (j, i) \<and>
            0 \<le> newQty \<and>
            js' = js[j := (js ! j)\<lparr>ops := (ops (js ! j))[i := (ops (js ! j) ! i)\<lparr>qtyCompleted := newQty,
                        totalValue := rate (ops (js ! j) ! i) * newQty\<rparr>]\<rparr>] \<and>
            dbj' = push_delta (jobNumber (js ! j))
                     \<lparr>d_opsName = trim (opsName (ops (js ! j) ! i)), d_rate = rate (ops (js ! j) ! i),
                      deltaQty = newQty - qtyCompleted (ops (js ! j) ! i)\<rparr> dbj"
    then obtain jn1 nm j i newQty where
      b: "bmap (buildKey jn1 nm (number_or_zero (ch_rate c))) = Some (j, i)" and
      n: "0 \<le> newQty" and
      js': "js' = js[j := (js ! j)\<lparr>ops := (ops (js ! j))[i := (ops (js ! j) ! i)\<lparr>qtyCompleted := newQty,
                        totalValue := rate (ops (js ! j) ! i) * newQty\<rparr>]\<rparr>]" and
      dbj': "dbj' = push_delta (jobNumber (js ! j))
                     \<lparr>d_opsName = trim (opsName (ops (js ! j) ! i)), d_rate = rate (ops (js ! j) ! i),
                      deltaQty = newQty - qtyCompleted (ops (js ! j) ! i)\<rparr> dbj"
      by blast
    from assms(2) b have j: "j < length js" and i: "i < length (ops (js ! j))"
      by blast+
    define bop where "bop = ops (js ! j) ! i"
    define bop' where "bop' = bop\<lparr>qtyCompleted := newQty, totalValue := rate bop * newQty\<rparr>"
    define job' where "job' = (js ! j)\<lparr>ops := (ops (js ! j))[i := bop']\<rparr>"
    have js'': "js' = js[j := job']"
      by (simp add: js' job'_def bop'_def bop_def)
    have "map (\<lambda>bop. (opsName bop, rate bop)) ((ops (js ! j))[i := bop'])
            = map (\<lambda>bop. (opsName bop, rate bop)) (ops (js ! j))"
      by (rule map_update_same [OF i]) (simp add: bop'_def bop_def)
    then have shape: "bill_shape js' = bill_shape js"
      unfolding bill_shape_def js''
      by (intro map_update_same [OF j]) (simp add: job'_def)
    have lq: "line_qty Q bop' - line_qty Q bop
                = delta_qty Q \<lparr>d_opsName = trim (opsName bop), d_rate = rate bop,
                                deltaQty = newQty - qtyCompleted bop\<rparr>"
      by (simp add: line_qty_def delta_qty_def bop'_def)
    have "sum_list (map (line_qty Q) ((ops (js ! j))[i := bop']))
            = sum_list (map (line_qty Q) (ops (js ! j))) - line_qty Q bop + line_qty Q bop'"
      using sum_list_map_update [OF i, of "line_qty Q" bop'] by (simp add: bop_def)
    then have jq: "job_qty Q jn job' - job_qty Q jn (js ! j)
                = (if jobNumber (js ! j) = jn then line_qty Q bop' - line_qty Q bop else 0)"
      by (simp add: job_qty_def job'_def)
    have "bill_qty Q jn js' = bill_qty Q jn js - job_qty Q jn (js ! j) + job_qty Q jn job'"
      unfolding bill_qty_def js'' by (rule sum_list_map_update [OF j])
    with jq lq have qty: "bill_qty Q jn js' - bill_qty Q jn js
         = deltas_qty Q jn dbj' - deltas_qty Q jn dbj"
      by (simp add: dbj' push_delta_qty bop_def)
    have "nonneg_lines js \<Longrightarrow> nonneg_lines js'"
      unfolding js' by (rule nonneg_lines_update [OF _ n])
    with shape qty show ?thesis
      by blast
  qed
  then show "bill_shape js' = bill_shape js"
    and "bill_qty Q jn js' - bill_qty Q jn js = deltas_qty Q jn dbj' - deltas_qty Q jn dbj"
    and "nonneg_lines js \<Longrightarrow> nonneg_lines js'"
    by blast+
qed

lemma apply_changes_qty:
  assumes "apply_changes (billOpsMap js0) cs (js, dbj) = Inr (js', dbj')"
    and "bill_shape js = bill_shape js0"
  shows "bill_qty Q jn js' - bill_qty Q jn js = deltas_qty Q jn dbj' - deltas_qty Q jn dbj \<and>
         (nonneg_lines js \<longrightarrow> nonneg_lines js')"
  using assms
proof (induction cs arbitrary: js dbj)
  case Nil
  then show ?case by simp
next
  case (Cons c cs)
  from Cons.prems(1) obtain js1 dbj1 where
    1: "apply_change (billOpsMap js0) c (js, dbj) = Inr (js1, dbj1)" and
    2: "apply_changes (billOpsMap js0) cs (js1, dbj1) = Inr (js', dbj')"
    by (auto split: sum.splits)
  have r: "\<forall>key j i. billOpsMap js0 key = Some (j, i) \<longrightarrow> j < length js \<and> i < length (ops (js ! j))"
  proof (intro allI impI)
    fix key j i
    assume "billOpsMap js0 key = Some (j, i)"
    from billOpsMap_range [OF this] bill_shape_lengths [OF Cons.prems(2), of j]
    show "j < length js \<and> i < length (ops (js ! j))"
      by simp
  qed
  note s = apply_change_qty [OF 1 r]
  from s(1) Cons.prems(2) have "bill_shape js1 = bill_shape js0"
    by simp
  from Cons.IH [OF 2 this] s(2) [of Q jn] s(3) show ?case
    by auto
qed

lemma find_job_op_matched_at:
  "(find_job_op nmap jops d = Some k) = matched_at nmap jops k (d_opsName d) (d_rate d)"
  by (simp add: find_job_op_def matched_at_def)

lemma billed_for_bill_qty:
  "billed_for nmap jops k jn js = bill_qty (matched_at nmap jops k) jn js"
proof -
  have l: "sum_list (map qtyCompleted (filter (line_matches nmap jops k) bops))
             = sum_list (map (line_qty (matched_at nmap jops k)) bops)" for bops
    by (induction bops) (simp_all add: line_qty_def line_matches_def matched_at_def)
  show ?thesis
    unfolding billed_for_def l
    by (induction js) (simp_all add: job_lines_def bill_qty_def job_qty_def)
qed

lemma matched_deltas_qty:
  "sum_list (map deltaQty (filter (\<lambda>d. find_job_op nmap jops d = Some k) ds))
     = sum_list (map (delta_qty (matched_at nmap jops k)) ds)"
  by (induction ds) (simp_all add: delta_qty_def find_job_op_matched_at)

lemma deltas_qty_distinct:
  "distinct (map fst dbj) \<Longrightarrow> (jn, ds) \<in> set dbj \<Longrightarrow>
   deltas_qty Q jn dbj = sum_list (map (delta_qty Q) ds)"
proof (induction dbj)
  case Nil
  then show ?case by simp
next
  case (Cons jd dbj)
  obtain jn1 ds1 where jd: "jd = (jn1, ds1)" by (cases jd)
  have step: "deltas_qty Q jn (jd # dbj)
                = (if jn1 = jn then sum_list (map (delta_qty Q) ds1) else 0) + deltas_qty Q jn dbj"
    by (simp add: deltas_qty_def jd)
  show ?case
  proof (cases "(jn, ds) \<in> set dbj")
    case True
    with Cons.prems(1) have "jn1 \<noteq> jn"
      by (force simp add: jd)
    with Cons.IH True Cons.prems(1) show ?thesis
      by (simp add: step)
  next
    case False
    with Cons.prems(2) have e: "jn1 = jn" "ds1 = ds"
      by (simp_all add: jd)
    from Cons.prems(1) have "jn \<notin> fst ` set dbj"
      by (simp add: jd e)
    then have "deltas_qty Q jn dbj = 0"
      unfolding deltas_qty_def
      by (induction dbj) (auto simp add: image_iff)
    then show ?thesis
      by (simp add: step e)
  qed
qed

lemma job_lines_prune:
  "job_lines jn (prune_jobs js) = filter (\<lambda>bop. 0 < qtyCompleted bop) (job_lines jn js)"
  by (induction js) (simp_all add: job_lines_def prune_jobs_def)

lemma sum_filter_positive:
  "\<forall>bop \<in> set bops. 0 \<le> qtyCompleted bop \<Longrightarrow>
   sum_list (map qtyCompleted (filter P (filter (\<lambda>bop. 0 < qtyCompleted bop) bops)))
     = sum_list (map qtyCompleted (filter P bops))"
  by (induction bops) (auto simp add: order.order_iff_strict)

lemma nonneg_job_lines:
  "nonneg_lines js \<Longrightarrow> \<forall>bop \<in> set (job_lines jn js). 0 \<le> qtyCompleted bop"
  by (auto simp add: nonneg_lines_def job_lines_def)

lemma billed_for_prune:
  "nonneg_lines js \<Longrightarrow> billed_for nmap jops k jn (prune_jobs js) = billed_for nmap jops k jn js"
  unfolding billed_for_def job_lines_prune
  by (rule sum_filter_positive [OF nonneg_job_lines])

text \<open>
  Claim C4, as stated: for every changed line on which no clamp engages, the change of the
  line's \<open>qtyCompleted\<close> is the negation of the change of \<open>pendingOpsQty\<close> of the matched
  master operation. The matching rounds the rate to two decimals, so two lines of a bill can
  be matched to one master operation: in \<open>two_rate_store\<close> both lines are, the edit raises
  them by 1 and by 2, the pending quantity goes from 10 to 7 with no clamp engaged (the
  total is 20), and the first line has changed by 1, not by 3.
\<close>

theorem two_lines_one_master_operation:
  "map (map qtyCompleted \<circ> ops) (jobs two_rate_bill) = [[5, 5]] \<and>
   map (line_matches (operationNameMap (operations two_rate_store) (two_rate_ops 10 0))
          (two_rate_ops 10 0) 0) (job_lines ''J1'' (jobs two_rate_bill)) = [True, True] \<and>
   map_option (map pendingOpsQty \<circ> master_ops) (masters two_rate_store ''J1'') = Some [10] \<and>
   fst (editBillQuantities 7 two_rate_store ''00000002'' (Some ''c1'') (Some two_rate_changes))
     = BillJson (two_rate_bill\<lparr>jobs := two_rate_jobs 6 7\<rparr>) \<and>
   masters (snd (editBillQuantities 7 two_rate_store ''00000002'' (Some ''c1'')
                   (Some two_rate_changes))) ''J1''
     = Some \<lparr>jobId = ''J1'', master_ops = two_rate_ops 7 7\<rparr> \<and>
   unclamped 10 20 [1, 2] \<and>
   qtyCompleted (ops (two_rate_jobs 6 7 ! 0) ! 0) - qtyCompleted (ops (jobs two_rate_bill ! 0) ! 0)
     \<noteq> - (pendingOpsQty (two_rate_ops 7 7 ! 0) - pendingOpsQty (two_rate_ops 10 0 ! 0))"
  by (simp add: eval_defs eval_two_rate_defs)

text \<open>
  Claim C4, amended: for every successful edit and every master operation on which no clamp
  engages while the deltas matched to it are applied, the change of the completed quantity
  that the lines of the bill matched to that operation hold together is the negation of
  the change of its \<open>pendingOpsQty\<close>. The quantities of the bill after the edit are those of
  \<open>js\<close>, the bill in memory before the lines with quantity 0 are removed; the saved bill
  holds the same sums when no line of the bill had a negative quantity. For a line that
  alone is matched to its operation this is the equation of the claim.
\<close>

theorem billed_and_pending_zero_sum:
  assumes "editBillQuantities now s bn cid (Some changes) = (BillJson b', s')"
    and "bills s bn = Some b"
    and "apply_changes (billOpsMap (jobs b)) changes (jobs b, []) = Inr (js, deltasByJob)"
    and "(jn, deltas) \<in> set deltasByJob"
    and "masters s jn = Some m" and "k < length (master_ops m)"
    and "nmap = operationNameMap (operations s) (master_ops m)"
    and "unclamped (pendingOpsQty (master_ops m ! k)) (totalOpsQty (master_ops m ! k))
           (map deltaQty (filter (\<lambda>d. find_job_op nmap (master_ops m) d = Some k) deltas))"
  shows "\<exists>m'. masters s' jn = Some m' \<and>
           billed_for nmap (master_ops m) k jn js - billed_for nmap (master_ops m) k jn (jobs b)
             = - (pendingOpsQty (master_ops m' ! k) - pendingOpsQty (master_ops m ! k)) \<and>
           (nonneg_lines (jobs b) \<longrightarrow>
              billed_for nmap (master_ops m) k jn (jobs b') = billed_for nmap (master_ops m) k jn js)"
proof -
  from edit_success [OF assms(1)] assms(2,3,4) obtain c s1 where
    p: "process_jobs now c deltasByJob s = Inr s1" and
    b': "b' = b\<lparr>jobs := prune_jobs js\<rparr>" and
    s': "s' = s1\<lparr>bills := (bills s1)(bn \<mapsto> b')\<rparr>"
    by (auto split: if_splits)
  have dist: "distinct (map fst deltasByJob)"
    using apply_changes_distinct [OF assms(3)] by simp
  from process_jobs_master [OF p dist assms(4)] assms(5,7) obtain jops adjs where
    a: "apply_deltas now nmap deltas (master_ops m, []) = Inr (jops, adjs)" and
    m': "masters s1 jn = Some (m\<lparr>master_ops := jops\<rparr>)"
    by auto
  let ?Q = "matched_at nmap (master_ops m) k"
  from apply_changes_qty [OF assms(3) refl, of ?Q jn]
  have q: "bill_qty ?Q jn js - bill_qty ?Q jn (jobs b) = deltas_qty ?Q jn deltasByJob"
    and n: "nonneg_lines (jobs b) \<longrightarrow> nonneg_lines js"
    by (simp_all add: deltas_qty_def)
  have "pendingOpsQty (jops ! k) = pendingOpsQty (master_ops m ! k)
          - sum_list (map deltaQty (filter (\<lambda>d. find_job_op nmap (master_ops m) d = Some k) deltas))"
    by (rule apply_deltas_unclamped [OF a assms(6,8)])
  then have "pendingOpsQty (jops ! k) - pendingOpsQty (master_ops m ! k)
          = - deltas_qty ?Q jn deltasByJob"
    by (simp add: matched_deltas_qty deltas_qty_distinct [OF dist assms(4)])
  with q have "billed_for nmap (master_ops m) k jn js - billed_for nmap (master_ops m) k jn (jobs b)
             = - (pendingOpsQty (jops ! k) - pendingOpsQty (master_ops m ! k))"
    by (simp add: billed_for_bill_qty)
  moreover have "nonneg_lines (jobs b) \<longrightarrow>
      billed_for nmap (master_ops m) k jn (jobs b') = billed_for nmap (master_ops m) k jn js"
    using n by (simp add: b' billed_for_prune)
  ultimately show ?thesis
    using m' by (simp add: s')
qed

theorem billed_and_pending_zero_sum_witness:
  "unclamped 10 20 [1, 2] \<and> nonneg_lines (jobs two_rate_bill) \<and>
   billed_for (operationNameMap (operations two_rate_store) (two_rate_ops 10 0)) (two_rate_ops 10 0) 0
     ''J1'' (two_rate_jobs 6 7) = 13 \<and>
   billed_for (operationNameMap (operations two_rate_store) (two_rate_ops 10 0)) (two_rate_ops 10 0) 0
     ''J1'' (jobs two_rate_bill) = 10 \<and>
   (\<exists>m'. masters (snd (editBillQuantities 7 two_rate_store ''00000002'' (Some ''c1'')
                          (Some two_rate_changes))) ''J1'' = Some m' \<and>
         13 - 10 = - (pendingOpsQty (master_ops m' ! 0) - 10) \<and>
         billed_for (operationNameMap (operations two_rate_store) (two_rate_ops 10 0))
           (two_rate_ops 10 0) 0 ''J1'' (jobs (two_rate_bill\<lparr>jobs := two_rate_jobs 6 7\<rparr>)) = 13)"
proof -
  let ?s = "two_rate_store"
  let ?r = "editBillQuantities 7 ?s ''00000002'' (Some ''c1'') (Some two_rate_changes)"
  let ?m = "\<lparr>jobId = ''J1'', master_ops = two_rate_ops 10 0\<rparr>"
  let ?nmap = "operationNameMap (operations ?s) (master_ops ?m)"
  let ?d1 = "\<lparr>d_opsName = ''Drilling'', d_rate = 10001 / 1000, deltaQty = 1\<rparr>"
  let ?d2 = "\<lparr>d_opsName = ''Drilling'', d_rate = 10002 / 1000, deltaQty = 2\<rparr>"
  have 1: "?r = (BillJson (two_rate_bill\<lparr>jobs := two_rate_jobs 6 7\<rparr>), snd ?r)"
    by (simp add: eval_defs eval_two_rate_defs)
  have 2: "bills ?s ''00000002'' = Some two_rate_bill"
    by (simp add: two_rate_store_def)
  have 3: "apply_changes (billOpsMap (jobs two_rate_bill)) two_rate_changes (jobs two_rate_bill, [])
             = Inr (two_rate_jobs 6 7, [(''J1'', [?d1, ?d2])])"
    by (simp add: eval_defs eval_two_rate_defs)
  have 4: "(''J1'', [?d1, ?d2]) \<in> set [(''J1'', [?d1, ?d2])]"
    by simp
  have 5: "masters ?s ''J1'' = Some ?m"
    by (simp add: two_rate_store_def)
  have 6: "0 < length (master_ops ?m)"
    by (simp add: two_rate_ops_def)
  have f: "filter (\<lambda>d. find_job_op ?nmap (master_ops ?m) d = Some 0) [?d1, ?d2] = [?d1, ?d2]"
    by (simp add: eval_defs eval_two_rate_defs)
  have u: "unclamped 10 20 [1, 2]"
    by simp
  have 8: "unclamped (pendingOpsQty (master_ops ?m ! 0)) (totalOpsQty (master_ops ?m ! 0))
             (map deltaQty (filter (\<lambda>d. find_job_op ?nmap (master_ops ?m) d = Some 0) [?d1, ?d2]))"
    unfolding f by (simp add: two_rate_ops_def)
  have a: "billed_for ?nmap (master_ops ?m) 0 ''J1'' (two_rate_jobs 6 7) = 13"
    by (simp add: eval_defs eval_two_rate_defs)
  have b: "billed_for ?nmap (master_ops ?m) 0 ''J1'' (jobs two_rate_bill) = 10"
    by (simp add: eval_defs eval_two_rate_defs)
  have p: "pendingOpsQty (master_ops ?m ! 0) = 10"
    by (simp add: two_rate_ops_def)
  have n: "nonneg_lines (jobs two_rate_bill)"
    by (simp add: nonneg_lines_def two_rate_bill_def two_rate_jobs_def)
  from billed_and_pending_zero_sum [OF 1 2 3 4 5 6 refl 8] n
  have "\<exists>m'. masters (snd ?r) ''J1'' = Some m' \<and>
          13 - 10 = - (pendingOpsQty (master_ops m' ! 0) - 10) \<and>
          billed_for ?nmap (master_ops ?m) 0 ''J1'' (jobs (two_rate_bill\<lparr>jobs := two_rate_jobs 6 7\<rparr>)) = 13"
    unfolding a b p by blast
  with u n a b show ?thesis
    by simp
qed

end
